theory Spec2Isabelle
  imports Main
begin

section \<open>Agent session streaming: data model\<close>

text \<open>
  The development embeds two source functions of the application server:
  \<^verbatim>\<open>stream_agent_response\<close> (services/agent.py), which turns the native messages of
  the agent runtime into event dictionaries, and \<^verbatim>\<open>invoke_agent\<close> with its nested
  generator \<^verbatim>\<open>stream_and_store\<close> (routers/agent.py), which forwards the events as
  wire frames, accumulates the transcript, and saves the turn.

  Payloads that the code only passes through (tool input, tool result content, cost, the raw
  stream event) are opaque values of type \<open>json\<close>. Frames are kept structured; the textual
  encoding \<^verbatim>\<open>data: <json>\n\n\<close> of \<^verbatim>\<open>sse_event\<close> is not modelled. Timestamps and row ids of
  messages are left out. The frame sequence of an invocation is the one the generator produces
  when it is consumed to its end.
\<close>

type_synonym json = string

text \<open>Python truthiness of an \<^verbatim>\<open>Optional[str]\<close>: \<^verbatim>\<open>None\<close> and the empty string are falsy.\<close>

fun truthy :: "string option \<Rightarrow> bool" where
  "truthy None = False"
| "truthy (Some s) = (s \<noteq> [])"

text \<open>\<^verbatim>\<open>str(x)\<close> as used inside the f-strings of the log messages.\<close>

fun str_opt :: "string option \<Rightarrow> string" where
  "str_opt None = ''None''"
| "str_opt (Some s) = s"

fun str_bool :: "bool \<Rightarrow> string" where
  "str_bool True = ''True''"
| "str_bool False = ''False''"

fun str_nat :: "nat \<Rightarrow> string" where
  "str_nat n = (if n < 10 then [''0123456789'' ! n]
                else str_nat (n div 10) @ [''0123456789'' ! (n mod 10)])"

declare str_nat.simps [simp del]

subsection \<open>Native messages of the agent runtime\<close>

text \<open>
  The classes imported from the runtime's SDK. \<open>OtherBlock\<close> and \<open>OtherMessage\<close> stand for
  any object that is an instance of none of the classes the code tests for. The \<open>data\<close>
  dictionary of a system message is an association list; the values it holds are restricted
  to \<^verbatim>\<open>str\<close> or \<^verbatim>\<open>None\<close>, the declared type of the variable the code reads them into.
\<close>

datatype content_block =
    TextBlock string
  | ThinkingBlock string
  | ToolUseBlock string string json
  | ToolResultBlock string json "bool option"
  | OtherBlock

type_synonym sysdata = "(string \<times> string option) list"

datatype native_msg =
    AssistantMessage "content_block list"
  | ResultMessage "string option" int json bool int
  | SystemMessage string "sysdata option"
  | UserMessage
  | StreamEvent json string
  | OtherMessage

text \<open>The event dictionaries yielded by \<^verbatim>\<open>stream_agent_response\<close>, one constructor per
  value of the \<^verbatim>\<open>'type'\<close> key.\<close>

datatype event =
    EText string
  | EThinking string
  | EToolUse string string json
  | EToolResult string json "bool option"
  | EResult "string option" int json bool int
  | ESystem string "sysdata option"
  | EStreamEvent json string
  | EError string

subsection \<open>Wire frames\<close>

datatype frame =
    FConversationCreated string
  | FText string
  | FThinking string
  | FToolUse string string json
  | FToolResult string json "bool option"
  | FResult "string option" int json bool int
  | FError string "string option"
  | FSystem string "sysdata option"
  | FStreamCompleted bool
  | FDone

subsection \<open>Rows of the store\<close>

record project =
  project_name :: string
  project_user_email :: string

record message =
  msg_role :: string
  msg_content :: string
  msg_is_error :: bool

record conversation =
  conv_project_id :: string
  conv_title :: string
  conv_session_id :: "string option"
  conv_cluster_id :: "string option"
  conv_messages :: "message list"

record world =
  projects :: "string \<rightharpoonup> project"
  conversations :: "string \<rightharpoonup> conversation"
  backup_pending :: "string list"

subsection \<open>Observable actions\<close>

record options =
  cwd :: string
  allowed_tools :: "string list"
  permission_mode :: string
  resume :: "string option"
  mcp_servers :: "(string \<times> json) list"
  system_prompt :: string

datatype level = INFO | WARNING | ERROR

text \<open>Calls that the persistence block of \<^verbatim>\<open>stream_and_store\<close> makes to its collaborators.\<close>

datatype store_call =
    AddMessage string string string bool
  | UpdateSessionId string string
  | UpdateClusterId string string
  | MarkForBackup string

text \<open>
  What an invocation does, in program order: a log record, a frame handed to the transport,
  the call of the runtime's \<^verbatim>\<open>query\<close>, a call issued to the store or to the backup manager.
\<close>

datatype action =
    Log level string
  | Emit frame
  | Query string options
  | Call store_call

text \<open>The body of \<^verbatim>\<open>InvokeAgentRequest\<close>.\<close>

record request =
  req_project_id :: string
  req_conversation_id :: "string option"
  req_message :: string
  req_cluster_id :: "string option"

text \<open>
  The collaborators whose code the two functions call. A result \<open>Inl e\<close> is an exception
  with \<^verbatim>\<open>str(e) = e\<close>; \<^verbatim>\<open>get_databricks_mcp_config\<close> and \<^verbatim>\<open>get_system_prompt\<close> are taken
  to return. \<open>query\<close> gives the native messages the runtime produces for a prompt and
  options, and the exception, if any, that it raises after them. \<open>fails\<close> tells which calls
  of the persistence block raise, and with which exception. \<open>generate_uuid\<close> is the id the
  store gives to a new conversation.
\<close>

record env =
  ensure_project_directory :: "string \<Rightarrow> string + string"
  get_databricks_mcp_config :: "(string \<times> json) list"
  get_databricks_mcp_tools :: "string + string list"
  get_system_prompt :: "string option \<Rightarrow> string"
  query :: "string \<Rightarrow> options \<Rightarrow> native_msg list \<times> string option"
  fails :: "store_call \<Rightarrow> string option"
  generate_uuid :: string

section \<open>services/agent.py\<close>

definition BUILTIN_TOOLS :: "string list" where
  "BUILTIN_TOOLS = [''Read'', ''Write'', ''Edit'', ''Glob'', ''Grep'', ''Skill'']"

text \<open>The branch of the inner loop over \<^verbatim>\<open>msg.content\<close> taken by one content block.\<close>

fun normalize_block :: "content_block \<Rightarrow> event list" where
  "normalize_block (TextBlock t) = [EText t]"
| "normalize_block (ThinkingBlock t) = [EThinking t]"
| "normalize_block (ToolUseBlock i n inp) = [EToolUse i n inp]"
| "normalize_block (ToolResultBlock i c e) = [EToolResult i c e]"
| "normalize_block OtherBlock = []"

text \<open>The branch of the \<^verbatim>\<open>isinstance\<close> chain taken by one native message.\<close>

fun normalize_message :: "native_msg \<Rightarrow> event list" where
  "normalize_message (AssistantMessage content) = concat (map normalize_block content)"
| "normalize_message (ResultMessage sid d c e n) = [EResult sid d c e n]"
| "normalize_message (SystemMessage st data) = [ESystem st data]"
| "normalize_message UserMessage = []"
| "normalize_message (StreamEvent ev sid) = [EStreamEvent ev sid]"
| "normalize_message OtherMessage = []"

text \<open>
  A generator's run is the list of what it does between its start and its end: an event it
  yields, or an action it performs. With it comes the exception that leaves the generator,
  if one does.
\<close>

datatype step = Yield event | Effect action

text \<open>
  The statements of \<^verbatim>\<open>stream_agent_response\<close> before its \<^verbatim>\<open>try\<close> block: the project
  directory, the log record, the allowed tools, the options. They give the steps done and
  either the exception that one of the collaborators raised or the options for the runtime.
\<close>

definition build_options ::
  "env \<Rightarrow> string \<Rightarrow> string \<Rightarrow> string option \<Rightarrow> string option \<Rightarrow> step list \<times> (string + options)" where
  "build_options env project_id msg session_id cluster_id =
     (case ensure_project_directory env project_id of
        Inl e \<Rightarrow> ([], Inl e)
      | Inr project_dir \<Rightarrow>
         (let start = Effect (Log INFO
                (if truthy session_id
                 then ''Resuming session '' @ str_opt session_id @ '' in '' @ project_dir
                        @ '': '' @ take 100 msg @ ''...''
                 else ''Starting new session in '' @ project_dir
                        @ '': '' @ take 100 msg @ ''...''));
              servers = get_databricks_mcp_config env
          in (case (if servers \<noteq> [] then get_databricks_mcp_tools env else Inr []) of
               Inl e \<Rightarrow> ([start], Inl e)
             | Inr databricks_tools \<Rightarrow>
                (let enabled = (servers \<noteq> [] \<and> databricks_tools \<noteq> [])
                 in ([start]
                     @ (if enabled
                        then [Effect (Log INFO (''Databricks MCP tools enabled: ''
                                @ str_nat (length databricks_tools) @ '' tools''))]
                        else []),
                     Inr \<lparr> cwd = project_dir,
                           allowed_tools =
                             BUILTIN_TOOLS @ (if enabled then databricks_tools else []),
                           permission_mode = ''acceptEdits'',
                           resume = session_id,
                           mcp_servers = servers,
                           system_prompt = get_system_prompt env cluster_id \<rparr>)))))"

text \<open>
  The whole generator: the steps above, then the \<^verbatim>\<open>try\<close> block, in which the runtime is
  called once and an exception it raises becomes a last event of type \<^verbatim>\<open>error\<close>.
\<close>

definition stream_agent_response ::
  "env \<Rightarrow> string \<Rightarrow> string \<Rightarrow> string option \<Rightarrow> string option \<Rightarrow> step list \<times> string option" where
  "stream_agent_response env project_id msg session_id cluster_id =
     (let prep = build_options env project_id msg session_id cluster_id
      in (case snd prep of
            Inl e \<Rightarrow> (fst prep, Some e)
          | Inr opts \<Rightarrow>
              (fst prep
               @ [Effect (Query msg opts)]
               @ map Yield (concat (map normalize_message (fst (query env msg opts))))
               @ (case snd (query env msg opts) of
                    None \<Rightarrow> []
                  | Some e \<Rightarrow> [Effect (Log ERROR (''Error during Claude query: '' @ e)),
                               Yield (EError e)]),
               None)))"

section \<open>The store and the backup manager\<close>

text \<open>
  Modelled from the spec: the storage service (\<^verbatim>\<open>ProjectStorage\<close>, \<^verbatim>\<open>ConversationStorage\<close>)
  and \<^verbatim>\<open>mark_for_backup\<close> of the backup manager, whose code is not part of the sources at
  hand. The spec gives their interface: \<^verbatim>\<open>ProjectStore.get(id) -> Project | absent\<close>,
  \<^verbatim>\<open>ConversationStore.create(title) -> Conversation\<close>,
  \<^verbatim>\<open>ConversationStore.get(id) -> Conversation | absent\<close>,
  \<^verbatim>\<open>addMessage(conversationId, role, content, isError)\<close>,
  \<^verbatim>\<open>updateSessionToken(id, token)\<close>, \<^verbatim>\<open>updateClusterId(id, clusterId)\<close> and
  \<^verbatim>\<open>BackupSignal.markDirty(projectId)\<close>, which only enqueues. A project store is scoped to
  a user, a conversation store to a user and a project. The lookups and \<open>create\<close> are taken
  to return; a call of the persistence block that raises leaves the store as it was.
\<close>

definition project_get :: "world \<Rightarrow> string \<Rightarrow> string \<Rightarrow> project option" where
  "project_get w user_email pid =
     (case projects w pid of
        None \<Rightarrow> None
      | Some p \<Rightarrow> if project_user_email p = user_email then Some p else None)"

definition conversation_get :: "world \<Rightarrow> string \<Rightarrow> string \<Rightarrow> conversation option" where
  "conversation_get w pid cid =
     (case conversations w cid of
        None \<Rightarrow> None
      | Some c \<Rightarrow> if conv_project_id c = pid then Some c else None)"

definition conversation_create :: "env \<Rightarrow> world \<Rightarrow> string \<Rightarrow> string \<Rightarrow> (string \<times> conversation) \<times> world" where
  "conversation_create env w pid ttl =
     (let c = \<lparr> conv_project_id = pid, conv_title = ttl, conv_session_id = None,
                conv_cluster_id = None, conv_messages = [] \<rparr>
      in ((generate_uuid env, c), w\<lparr>conversations := (conversations w)(generate_uuid env \<mapsto> c)\<rparr>))"

definition update_conversation :: "string \<Rightarrow> (conversation \<Rightarrow> conversation) \<Rightarrow> world \<Rightarrow> world" where
  "update_conversation cid f w =
     (case conversations w cid of
        None \<Rightarrow> w
      | Some c \<Rightarrow> w\<lparr>conversations := (conversations w)(cid \<mapsto> f c)\<rparr>)"

fun apply_call :: "store_call \<Rightarrow> world \<Rightarrow> world" where
  "apply_call (AddMessage cid r txt err) w =
     update_conversation cid
       (\<lambda>c. c\<lparr>conv_messages := conv_messages c
                 @ [\<lparr>msg_role = r, msg_content = txt, msg_is_error = err\<rparr>]\<rparr>) w"
| "apply_call (UpdateSessionId cid tok) w =
     update_conversation cid (\<lambda>c. c\<lparr>conv_session_id := Some tok\<rparr>) w"
| "apply_call (UpdateClusterId cid cl) w =
     update_conversation cid (\<lambda>c. c\<lparr>conv_cluster_id := Some cl\<rparr>) w"
| "apply_call (MarkForBackup pid) w = w\<lparr>backup_pending := backup_pending w @ [pid]\<rparr>"

section \<open>routers/agent.py\<close>

text \<open>The three variables \<^verbatim>\<open>stream_and_store\<close> accumulates over the events.\<close>

record acc =
  final_text :: string
  new_session_id :: "string option"
  error_message :: "string option"

text \<open>\<^verbatim>\<open>data.get('session_id')\<close> on the dictionary of a system event.\<close>

definition data_get :: "sysdata \<Rightarrow> string \<Rightarrow> string option" where
  "data_get d k = (case map_of d k of None \<Rightarrow> None | Some v \<Rightarrow> v)"

text \<open>Truthiness of \<^verbatim>\<open>data\<close>: \<^verbatim>\<open>None\<close> and the empty dictionary are falsy.\<close>

fun truthy_data :: "sysdata option \<Rightarrow> bool" where
  "truthy_data None = False"
| "truthy_data (Some d) = (d \<noteq> [])"

text \<open>
  One pass of the loop body over an event: the new values of the variables and the frames
  handed to the transport. An event of type \<^verbatim>\<open>stream_event\<close> matches no branch.
\<close>

fun handle_event :: "event \<Rightarrow> acc \<Rightarrow> acc \<times> frame list" where
  "handle_event (EText t) a = (a\<lparr>final_text := final_text a @ t\<rparr>, [FText t])"
| "handle_event (EThinking t) a = (a, [FThinking t])"
| "handle_event (EToolUse i n inp) a = (a, [FToolUse i n inp])"
| "handle_event (EToolResult i c e) a = (a, [FToolResult i c e])"
| "handle_event (EResult sid d c e n) a = (a\<lparr>new_session_id := sid\<rparr>, [FResult sid d c e n])"
| "handle_event (EError e) a = (a\<lparr>error_message := Some e\<rparr>, [FError e None])"
| "handle_event (ESystem st data) a =
     ((if st = ''init'' \<and> truthy_data data \<and> \<not> truthy (new_session_id a)
       then a\<lparr>new_session_id := data_get (the data) ''session_id''\<rparr> else a),
      [FSystem st data])"
| "handle_event (EStreamEvent ev sid) a = (a, [])"

text \<open>The \<^verbatim>\<open>async for\<close> loop over the generator's steps: the variables at its end and
  the actions done on the way, in order.\<close>

fun consume :: "step list \<Rightarrow> acc \<Rightarrow> acc \<times> action list" where
  "consume [] a = (a, [])"
| "consume (Effect x # ss) a = (fst (consume ss a), x # snd (consume ss a))"
| "consume (Yield e # ss) a =
     (fst (consume ss (fst (handle_event e a))),
      map Emit (snd (handle_event e a)) @ snd (consume ss (fst (handle_event e a))))"

text \<open>
  The \<^verbatim>\<open>try\<close> block that saves the turn is a sequence of guarded statements; the first call
  that raises ends it. A statement is a call or a log record.
\<close>

datatype stmt = Do store_call | Say level string

definition save_stmts :: "request \<Rightarrow> string \<Rightarrow> acc \<Rightarrow> stmt list" where
  "save_stmts body conversation_id a =
     [Do (AddMessage conversation_id ''user'' (req_message body) False)]
     @ (if final_text a \<noteq> [] \<or> truthy (error_message a)
        then [Do (AddMessage conversation_id ''assistant''
                    (if final_text a \<noteq> [] then final_text a
                     else ''Error: '' @ str_opt (error_message a))
                    (error_message a \<noteq> None))]
        else [])
     @ (if truthy (new_session_id a)
        then [Do (UpdateSessionId conversation_id (the (new_session_id a)))] else [])
     @ (if truthy (req_cluster_id body)
        then [Do (UpdateClusterId conversation_id (the (req_cluster_id body)))] else [])
     @ [Say INFO (''Saved messages to conversation '' @ conversation_id @ '': text=''
                  @ str_nat (length (final_text a)) @ '' chars, error=''
                  @ str_bool (error_message a \<noteq> None))]
     @ [Do (MarkForBackup (req_project_id body))]"

text \<open>Running the statements: the actions done, the store after them, and the exception
  that ended the block, if one did.\<close>

fun run_stmts :: "env \<Rightarrow> stmt list \<Rightarrow> world \<Rightarrow> action list \<times> world \<times> string option" where
  "run_stmts env [] w = ([], w, None)"
| "run_stmts env (Say l m # ss) w =
     (Log l m # fst (run_stmts env ss w), snd (run_stmts env ss w))"
| "run_stmts env (Do c # ss) w =
     (case fails env c of
        Some e \<Rightarrow> ([Call c], w, Some e)
      | None \<Rightarrow> (Call c # fst (run_stmts env ss (apply_call c w)),
                 snd (run_stmts env ss (apply_call c w))))"

text \<open>The \<^verbatim>\<open>try\<close> block with its \<^verbatim>\<open>except\<close> clause.\<close>

definition save_messages :: "env \<Rightarrow> request \<Rightarrow> string \<Rightarrow> acc \<Rightarrow> world \<Rightarrow> action list \<times> world" where
  "save_messages env body conversation_id a w =
     (let r = run_stmts env (save_stmts body conversation_id a) w
      in (case snd (snd r) of
            None \<Rightarrow> (fst r, fst (snd r))
          | Some e \<Rightarrow> (fst r @ [Log ERROR (''Failed to save messages: '' @ e)], fst (snd r))))"

text \<open>The loop with its \<^verbatim>\<open>except\<close> clause: the variables after it and the actions done.\<close>

definition stream_events :: "env \<Rightarrow> request \<Rightarrow> string option \<Rightarrow> acc \<times> action list" where
  "stream_events env body session_id =
     (let run = stream_agent_response env (req_project_id body) (req_message body)
                  session_id (req_cluster_id body);
          s = consume (fst run) \<lparr>final_text = [], new_session_id = None, error_message = None\<rparr>
      in (case snd run of
            None \<Rightarrow> s
          | Some e \<Rightarrow> ((fst s)\<lparr>error_message := Some e\<rparr>,
                       snd s @ [Log ERROR (''Error during agent stream: '' @ e),
                                Emit (FError e None)])))"

text \<open>The generator \<^verbatim>\<open>stream_and_store\<close>, consumed to its end.\<close>

definition stream_and_store ::
  "env \<Rightarrow> request \<Rightarrow> string \<Rightarrow> string option \<Rightarrow> world \<Rightarrow> action list \<times> world" where
  "stream_and_store env body conversation_id session_id w =
     (let t = stream_events env body session_id;
          s = save_messages env body conversation_id (fst t) w
      in ([Emit (FConversationCreated conversation_id)]
          @ snd t
          @ fst s
          @ [Emit (FStreamCompleted (error_message (fst t) \<noteq> None)), Emit FDone],
          snd s))"

definition create_error_stream :: "string \<Rightarrow> string \<Rightarrow> action list" where
  "create_error_stream err msg = [Emit (FError err (Some msg)), Emit FDone]"

text \<open>
  The handler. \<open>user_email\<close> is what \<^verbatim>\<open>get_current_user\<close> returned. The result is the list
  of actions of the invocation, its response being the frames among them, and the store
  afterwards.
\<close>

definition invoke_agent :: "env \<Rightarrow> string \<Rightarrow> request \<Rightarrow> world \<Rightarrow> action list \<times> world" where
  "invoke_agent env user_email body w =
     (let out = [Log INFO (''Invoking agent for project: '' @ req_project_id body
                           @ '', conversation: '' @ str_opt (req_conversation_id body))]
      in (case project_get w user_email (req_project_id body) of
            None \<Rightarrow>
              (out @ [Log ERROR (''Project not found: '' @ req_project_id body)]
                   @ create_error_stream (''Project not found: '' @ req_project_id body)
                       ''Please verify the project exists'', w)
          | Some p \<Rightarrow>
             (if \<not> truthy (req_conversation_id body)
              then (let ttl = take 50 (req_message body)
                              @ (if length (req_message body) > 50 then ''...'' else []);
                        r = conversation_create env w (req_project_id body) ttl;
                        conversation_id = fst (fst r);
                        s = stream_and_store env body conversation_id
                              (conv_session_id (snd (fst r))) (snd r)
                    in (out @ [Log INFO (''Created new conversation: '' @ conversation_id)]
                            @ fst s, snd s))
              else (let conversation_id = the (req_conversation_id body)
                    in (case conversation_get w (req_project_id body) conversation_id of
                          None \<Rightarrow>
                            (out @ [Log ERROR (''Conversation not found: '' @ conversation_id)]
                                 @ create_error_stream
                                     (''Conversation not found: '' @ conversation_id) [], w)
                        | Some c \<Rightarrow>
                            (let s = stream_and_store env body conversation_id
                                       (conv_session_id c) w
                             in (out @ fst s, snd s)))))))"

section \<open>Notions used in the statements\<close>

text \<open>The frames, the collaborator calls and the warnings among the actions of an
  invocation, in order.\<close>

fun frames_of :: "action list \<Rightarrow> frame list" where
  "frames_of [] = []"
| "frames_of (Emit f # xs) = f # frames_of xs"
| "frames_of (Log l m # xs) = frames_of xs"
| "frames_of (Query p opts # xs) = frames_of xs"
| "frames_of (Call c # xs) = frames_of xs"

fun calls_of :: "action list \<Rightarrow> store_call list" where
  "calls_of [] = []"
| "calls_of (Call c # xs) = c # calls_of xs"
| "calls_of (Log l m # xs) = calls_of xs"
| "calls_of (Query p opts # xs) = calls_of xs"
| "calls_of (Emit f # xs) = calls_of xs"

fun warnings_of :: "action list \<Rightarrow> string list" where
  "warnings_of [] = []"
| "warnings_of (Log l m # xs) = (if l = WARNING then m # warnings_of xs else warnings_of xs)"
| "warnings_of (Emit f # xs) = warnings_of xs"
| "warnings_of (Query p opts # xs) = warnings_of xs"
| "warnings_of (Call c # xs) = warnings_of xs"

fun is_log :: "action \<Rightarrow> bool" where
  "is_log (Log l m) = True"
| "is_log (Emit f) = False"
| "is_log (Query p opts) = False"
| "is_log (Call c) = False"

text \<open>The frames that the loop over the events can hand out.\<close>

fun stream_frame :: "frame \<Rightarrow> bool" where
  "stream_frame (FConversationCreated c) = False"
| "stream_frame (FStreamCompleted b) = False"
| "stream_frame FDone = False"
| "stream_frame (FText t) = True"
| "stream_frame (FThinking t) = True"
| "stream_frame (FToolUse i n inp) = True"
| "stream_frame (FToolResult i c e) = True"
| "stream_frame (FResult sid d c e n) = True"
| "stream_frame (FError e m) = True"
| "stream_frame (FSystem st d) = True"

text \<open>A step that neither hands out a frame nor calls the store by itself.\<close>

fun quiet :: "step \<Rightarrow> bool" where
  "quiet (Yield e) = True"
| "quiet (Effect (Log l m)) = True"
| "quiet (Effect (Query p opts)) = True"
| "quiet (Effect (Emit f)) = False"
| "quiet (Effect (Call c)) = False"

fun is_effect :: "step \<Rightarrow> bool" where
  "is_effect (Effect x) = True"
| "is_effect (Yield e) = False"

text \<open>
  An invocation reaches the streaming phase when the project resolves and the conversation
  is created or found: \<open>resolve\<close> then gives the conversation id, the conversation row and
  the store with which \<^verbatim>\<open>stream_and_store\<close> starts. \<open>entry_log\<close> is what the handler has
  logged by then.
\<close>

definition resolve :: "env \<Rightarrow> world \<Rightarrow> string \<Rightarrow> request \<Rightarrow> (string \<times> conversation \<times> world) option" where
  "resolve env w user_email body =
     (case project_get w user_email (req_project_id body) of
        None \<Rightarrow> None
      | Some p \<Rightarrow>
         (if \<not> truthy (req_conversation_id body)
          then (let r = conversation_create env w (req_project_id body)
                          (take 50 (req_message body)
                           @ (if length (req_message body) > 50 then ''...'' else []))
                in Some (fst (fst r), snd (fst r), snd r))
          else (case conversation_get w (req_project_id body) (the (req_conversation_id body)) of
                  None \<Rightarrow> None
                | Some c \<Rightarrow> Some (the (req_conversation_id body), c, w))))"

definition entry_log :: "env \<Rightarrow> request \<Rightarrow> action list" where
  "entry_log env body =
     [Log INFO (''Invoking agent for project: '' @ req_project_id body
                @ '', conversation: '' @ str_opt (req_conversation_id body))]
     @ (if truthy (req_conversation_id body) then []
        else [Log INFO (''Created new conversation: '' @ generate_uuid env)])"

text \<open>The variables of \<^verbatim>\<open>stream_and_store\<close> when its loop has ended, in an invocation that
  resumes from conversation row \<open>c\<close>.\<close>

definition accumulated :: "env \<Rightarrow> request \<Rightarrow> conversation \<Rightarrow> acc" where
  "accumulated env body c = fst (stream_events env body (conv_session_id c))"

text \<open>An error occurred in a run of the agent generator: an exception left it, or it
  yielded an event of type \<^verbatim>\<open>error\<close>.\<close>

fun error_event :: "step \<Rightarrow> bool" where
  "error_event (Yield (EError e)) = True"
| "error_event (Yield (EText t)) = False"
| "error_event (Yield (EThinking t)) = False"
| "error_event (Yield (EToolUse i n inp)) = False"
| "error_event (Yield (EToolResult i c e)) = False"
| "error_event (Yield (EResult sid d c e n)) = False"
| "error_event (Yield (ESystem st d)) = False"
| "error_event (Yield (EStreamEvent ev sid)) = False"
| "error_event (Effect x) = False"

definition error_occurred :: "step list \<times> string option \<Rightarrow> bool" where
  "error_occurred run = (snd run \<noteq> None \<or> list_ex error_event (fst run))"

text \<open>The events that a list of native messages is turned into.\<close>

definition events_of :: "native_msg list \<Rightarrow> step list" where
  "events_of msgs = map Yield (concat (map normalize_message msgs))"

text \<open>The calls in a list of statements; of a list of calls made in order, those that are
  issued (up to the first that raises) and those that take effect (before it).\<close>

fun stmt_calls :: "stmt list \<Rightarrow> store_call list" where
  "stmt_calls [] = []"
| "stmt_calls (Do c # ss) = c # stmt_calls ss"
| "stmt_calls (Say l m # ss) = stmt_calls ss"

fun attempted :: "env \<Rightarrow> store_call list \<Rightarrow> store_call list" where
  "attempted env [] = []"
| "attempted env (c # cs) = (if fails env c = None then c # attempted env cs else [c])"

fun applied :: "env \<Rightarrow> store_call list \<Rightarrow> store_call list" where
  "applied env [] = []"
| "applied env (c # cs) = (if fails env c = None then c # applied env cs else [])"

text \<open>What a call does to the row of conversation \<open>k\<close>.\<close>

fun conv_effect :: "string \<Rightarrow> store_call \<Rightarrow> conversation \<Rightarrow> conversation" where
  "conv_effect k (AddMessage cid r txt err) c =
     (if cid = k
      then c\<lparr>conv_messages := conv_messages c
                @ [\<lparr>msg_role = r, msg_content = txt, msg_is_error = err\<rparr>]\<rparr>
      else c)"
| "conv_effect k (UpdateSessionId cid tok) c =
     (if cid = k then c\<lparr>conv_session_id := Some tok\<rparr> else c)"
| "conv_effect k (UpdateClusterId cid cl) c =
     (if cid = k then c\<lparr>conv_cluster_id := Some cl\<rparr> else c)"
| "conv_effect k (MarkForBackup pid) c = c"

fun backup_marks :: "store_call list \<Rightarrow> string list" where
  "backup_marks [] = []"
| "backup_marks (MarkForBackup pid # cs) = pid # backup_marks cs"
| "backup_marks (AddMessage cid r txt err # cs) = backup_marks cs"
| "backup_marks (UpdateSessionId cid tok # cs) = backup_marks cs"
| "backup_marks (UpdateClusterId cid cl # cs) = backup_marks cs"

text \<open>The writes to the conversation store, as opposed to the backup signal.\<close>

fun is_write :: "store_call \<Rightarrow> bool" where
  "is_write (AddMessage cid r txt err) = True"
| "is_write (UpdateSessionId cid tok) = True"
| "is_write (UpdateClusterId cid cl) = True"
| "is_write (MarkForBackup pid) = False"

fun user_write :: "store_call \<Rightarrow> bool" where
  "user_write (AddMessage cid r txt err) = (r = ''user'')"
| "user_write (UpdateSessionId cid tok) = False"
| "user_write (UpdateClusterId cid cl) = False"
| "user_write (MarkForBackup pid) = False"

fun message_write :: "store_call \<Rightarrow> bool" where
  "message_write (AddMessage cid r txt err) = True"
| "message_write (UpdateSessionId cid tok) = False"
| "message_write (UpdateClusterId cid cl) = False"
| "message_write (MarkForBackup pid) = False"

fun token_write :: "store_call \<Rightarrow> bool" where
  "token_write (UpdateSessionId cid tok) = True"
| "token_write (AddMessage cid r txt err) = False"
| "token_write (UpdateClusterId cid cl) = False"
| "token_write (MarkForBackup pid) = False"

text \<open>A call that does not put an empty token on a conversation.\<close>

fun keeps_token :: "store_call \<Rightarrow> bool" where
  "keeps_token (UpdateSessionId cid tok) = (tok \<noteq> [])"
| "keeps_token (AddMessage cid r txt err) = True"
| "keeps_token (UpdateClusterId cid cl) = True"
| "keeps_token (MarkForBackup pid) = True"

definition user_messages :: "conversation \<Rightarrow> message list" where
  "user_messages c = filter (\<lambda>m. msg_role m = ''user'') (conv_messages c)"

text \<open>Native messages by what they do to the session token: a result message sets it to
  what it carries; a system message of subtype \<^verbatim>\<open>init\<close> with a token offers one.\<close>

fun is_result :: "native_msg \<Rightarrow> bool" where
  "is_result (ResultMessage sid d c e n) = True"
| "is_result (AssistantMessage bs) = False"
| "is_result (SystemMessage st d) = False"
| "is_result UserMessage = False"
| "is_result (StreamEvent ev sid) = False"
| "is_result OtherMessage = False"

fun offers_token :: "native_msg \<Rightarrow> bool" where
  "offers_token (SystemMessage st d) =
     (st = ''init'' \<and> truthy_data d \<and> truthy (data_get (the d) ''session_id''))"
| "offers_token (ResultMessage sid d c e n) = False"
| "offers_token (AssistantMessage bs) = False"
| "offers_token UserMessage = False"
| "offers_token (StreamEvent ev sid) = False"
| "offers_token OtherMessage = False"

text \<open>A list of native messages without the objects of unrecognized classes.\<close>

fun strip_blocks :: "native_msg \<Rightarrow> native_msg" where
  "strip_blocks (AssistantMessage bs) = AssistantMessage (filter (\<lambda>b. b \<noteq> OtherBlock) bs)"
| "strip_blocks (ResultMessage sid d c e n) = ResultMessage sid d c e n"
| "strip_blocks (SystemMessage st d) = SystemMessage st d"
| "strip_blocks UserMessage = UserMessage"
| "strip_blocks (StreamEvent ev sid) = StreamEvent ev sid"
| "strip_blocks OtherMessage = OtherMessage"

definition drop_unrecognized :: "native_msg list \<Rightarrow> native_msg list" where
  "drop_unrecognized msgs = map strip_blocks (filter (\<lambda>m. m \<noteq> OtherMessage) msgs)"

section \<open>Concrete invocations\<close>

text \<open>A store with one project and one conversation that has a session token, a runtime
  that answers with given messages, and requests that name the conversation, omit it, or
  name one that does not exist.\<close>

definition conv1 :: conversation where
  "conv1 = \<lparr> conv_project_id = ''p1'', conv_title = ''first'',
             conv_session_id = Some ''S0'', conv_cluster_id = None, conv_messages = [] \<rparr>"

definition world1 :: world where
  "world1 = \<lparr> projects = [''p1'' \<mapsto> \<lparr>project_name = ''demo'',
                                     project_user_email = ''ann@example.com''\<rparr>],
              conversations = [''c1'' \<mapsto> conv1],
              backup_pending = [] \<rparr>"

definition env1 :: "native_msg list \<Rightarrow> string option \<Rightarrow> (store_call \<Rightarrow> string option) \<Rightarrow> env" where
  "env1 msgs raised f =
     \<lparr> ensure_project_directory = (\<lambda>p. Inr (''/projects/'' @ p)),
       get_databricks_mcp_config = [],
       get_databricks_mcp_tools = Inr [],
       get_system_prompt = (\<lambda>c. ''prompt''),
       query = (\<lambda>p opts. (msgs, raised)),
       fails = f,
       generate_uuid = ''c2'' \<rparr>"

definition request1 :: request where
  "request1 = \<lparr> req_project_id = ''p1'', req_conversation_id = Some ''c1'',
                req_message = ''hello'', req_cluster_id = None \<rparr>"

definition request2 :: request where
  "request2 = \<lparr> req_project_id = ''p1'', req_conversation_id = None,
                req_message = ''hello'', req_cluster_id = None \<rparr>"

definition request3 :: request where
  "request3 = \<lparr> req_project_id = ''p1'', req_conversation_id = Some ''c9'',
                req_message = ''hello'', req_cluster_id = None \<rparr>"

text \<open>Three answers of the runtime: an \<^verbatim>\<open>init\<close> message with token \<^verbatim>\<open>T1\<close> and some text,
  followed by a result message with token \<^verbatim>\<open>T2\<close>, by no result message, or by a result
  message without a token. \<open>options1\<close> is what the runtime is called with for
  \<open>request1\<close>.\<close>

definition turn_T1_T2 :: "native_msg list" where
  "turn_T1_T2 = [SystemMessage ''init'' (Some [(''session_id'', Some ''T1'')]),
                 AssistantMessage [TextBlock ''hi''],
                 ResultMessage (Some ''T2'') 5 ''0.1'' False 1]"

definition turn_T1 :: "native_msg list" where
  "turn_T1 = [SystemMessage ''init'' (Some [(''session_id'', Some ''T1'')]),
              AssistantMessage [TextBlock ''hi'']]"

definition turn_T1_null :: "native_msg list" where
  "turn_T1_null = [SystemMessage ''init'' (Some [(''session_id'', Some ''T1'')]),
                   AssistantMessage [TextBlock ''hi''],
                   ResultMessage None 5 ''0.1'' False 1]"

definition options1 :: options where
  "options1 = \<lparr> cwd = ''/projects/p1'',
                allowed_tools = [''Read'', ''Write'', ''Edit'', ''Glob'', ''Grep'', ''Skill''],
                permission_mode = ''acceptEdits'', resume = Some ''S0'', mcp_servers = [],
                system_prompt = ''prompt'' \<rparr>"

definition no_failure :: "store_call \<Rightarrow> string option" where
  "no_failure c = None"

definition user_write_fails :: "store_call \<Rightarrow> string option" where
  "user_write_fails c = (if user_write c then Some ''database is locked'' else None)"

section \<open>Properties\<close>

subsection \<open>The actions of an invocation\<close>

lemma frames_of_append [simp]: "frames_of (xs @ ys) = frames_of xs @ frames_of ys"
  by (induction xs rule: frames_of.induct) simp_all

lemma calls_of_append [simp]: "calls_of (xs @ ys) = calls_of xs @ calls_of ys"
  by (induction xs rule: calls_of.induct) simp_all

lemma frames_of_map_Emit [simp]: "frames_of (map Emit fs) = fs"
  by (induction fs) simp_all

lemma calls_of_map_Emit [simp]: "calls_of (map Emit fs) = []"
  by (induction fs) simp_all

lemma resolve_conversation:
  "resolve env w u body = Some (cid, c, w1) \<Longrightarrow> conversations w1 cid = Some c"
  by (auto simp: resolve_def conversation_create_def conversation_get_def Let_def
           split: option.splits if_splits)

lemma resolve_backup:
  "resolve env w u body = Some (cid, c, w1) \<Longrightarrow> backup_pending w1 = backup_pending w"
  by (auto simp: resolve_def conversation_create_def conversation_get_def Let_def
           split: option.splits if_splits)

lemma resolve_new_id:
  "resolve env w u body = Some (cid, c, w1) \<Longrightarrow> \<not> truthy (req_conversation_id body) \<Longrightarrow>
   cid = generate_uuid env"
  by (auto simp: resolve_def conversation_create_def Let_def split: option.splits)

lemma invoke_agent_streams:
  "resolve env w u body = Some (cid, c, w1) \<Longrightarrow>
   invoke_agent env u body w =
     (entry_log env body @ fst (stream_and_store env body cid (conv_session_id c) w1),
      snd (stream_and_store env body cid (conv_session_id c) w1))"
  by (auto simp: resolve_def invoke_agent_def entry_log_def conversation_create_def Let_def
           split: option.splits if_splits)

lemma entry_log_logs: "list_all is_log (entry_log env body)"
  by (simp add: entry_log_def)

lemma entry_log_quiet [simp]:
  "frames_of (entry_log env body) = []" "calls_of (entry_log env body) = []"
  by (simp_all add: entry_log_def)

lemma handle_event_frames: "list_all stream_frame (snd (handle_event e a))"
  by (cases e) simp_all

lemma build_options_quiet:
  "list_all quiet (fst (build_options env p m s c))"
  by (simp add: build_options_def Let_def split: sum.splits)

lemma quiet_map_Yield: "list_all quiet (map Yield es)"
  by (induction es) simp_all

lemma stream_agent_response_quiet:
  "list_all quiet (fst (stream_agent_response env p m s c))"
  using build_options_quiet [of env p m s c]
  by (simp add: stream_agent_response_def quiet_map_Yield Let_def split: sum.splits option.splits)

lemma consume_frames:
  "list_all quiet ss \<Longrightarrow> list_all stream_frame (frames_of (snd (consume ss a)))"
proof (induction ss arbitrary: a)
  case Nil
  show ?case by simp
next
  case (Cons s ss)
  then have tl: "list_all quiet ss" and hd: "quiet s" by simp_all
  show ?case
  proof (cases s)
    case (Yield e)
    show ?thesis
      using Cons.IH [OF tl, of "fst (handle_event e a)"] handle_event_frames [of e a]
      by (simp add: Yield)
  next
    case (Effect x)
    show ?thesis
      using Cons.IH [OF tl, of a] hd by (cases x) (simp_all add: Effect)
  qed
qed

lemma consume_calls:
  "list_all quiet ss \<Longrightarrow> calls_of (snd (consume ss a)) = []"
proof (induction ss arbitrary: a)
  case Nil
  show ?case by simp
next
  case (Cons s ss)
  then have tl: "list_all quiet ss" and hd: "quiet s" by simp_all
  show ?case
  proof (cases s)
    case (Yield e)
    show ?thesis
      using Cons.IH [OF tl, of "fst (handle_event e a)"] by (simp add: Yield)
  next
    case (Effect x)
    show ?thesis
      using Cons.IH [OF tl, of a] hd by (cases x) (simp_all add: Effect)
  qed
qed

lemma stream_events_frames:
  "list_all stream_frame (frames_of (snd (stream_events env body sid)))"
  using consume_frames [OF stream_agent_response_quiet]
  by (simp add: stream_events_def Let_def split: option.splits)

lemma stream_events_calls:
  "calls_of (snd (stream_events env body sid)) = []"
  using consume_calls [OF stream_agent_response_quiet]
  by (simp add: stream_events_def Let_def split: option.splits)

lemma run_stmts_frames:
  "frames_of (fst (run_stmts env ss w)) = []"
proof (induction ss arbitrary: w)
  case Nil
  show ?case by simp
next
  case (Cons s ss)
  show ?case
  proof (cases s)
    case (Do c)
    show ?thesis
      using Cons.IH [of "apply_call c w"] by (simp add: Do split: option.splits)
  next
    case (Say l m)
    show ?thesis
      using Cons.IH [of w] by (simp add: Say)
  qed
qed

lemma save_messages_frames:
  "frames_of (fst (save_messages env body cid a w)) = []"
  using run_stmts_frames [of env "save_stmts body cid a" w]
  by (simp add: save_messages_def Let_def split: option.splits)

lemma stream_and_store_frames:
  "frames_of (fst (stream_and_store env body cid sid w)) =
     FConversationCreated cid # frames_of (snd (stream_events env body sid))
     @ [FStreamCompleted (error_message (fst (stream_events env body sid)) \<noteq> None), FDone]"
  by (simp add: stream_and_store_def Let_def save_messages_frames)

lemma consume_error:
  "(error_message (fst (consume ss a)) \<noteq> None) = (error_message a \<noteq> None \<or> list_ex error_event ss)"
proof (induction ss arbitrary: a)
  case Nil
  show ?case by simp
next
  case (Cons s ss)
  show ?case
  proof (cases s)
    case (Yield e)
    show ?thesis
      using Cons.IH [of "fst (handle_event e a)"] by (cases e) (simp_all add: Yield)
  next
    case (Effect x)
    show ?thesis
      using Cons.IH [of a] by (simp add: Effect)
  qed
qed

lemma stream_events_error:
  "(error_message (fst (stream_events env body sid)) \<noteq> None) =
     error_occurred (stream_agent_response env (req_project_id body) (req_message body) sid
                       (req_cluster_id body))"
proof (cases "snd (stream_agent_response env (req_project_id body) (req_message body) sid
                       (req_cluster_id body))")
  case None
  then show ?thesis
    using consume_error [of "fst (stream_agent_response env (req_project_id body)
              (req_message body) sid (req_cluster_id body))"
            "\<lparr>final_text = [], new_session_id = None, error_message = None\<rparr>"]
    by (simp add: stream_events_def error_occurred_def Let_def)
next
  case (Some e)
  then show ?thesis
    by (simp add: stream_events_def error_occurred_def Let_def)
qed

lemma build_options_fails [simp]:
  "build_options (env\<lparr>fails := f\<rparr>) p m s c = build_options env p m s c"
  by (simp add: build_options_def Let_def split: sum.splits)

lemma stream_agent_response_fails [simp]:
  "stream_agent_response (env\<lparr>fails := f\<rparr>) p m s c = stream_agent_response env p m s c"
  by (simp add: stream_agent_response_def Let_def split: sum.splits)

lemma stream_events_fails [simp]:
  "stream_events (env\<lparr>fails := f\<rparr>) body sid = stream_events env body sid"
  by (simp add: stream_events_def)

lemma resolve_fails [simp]:
  "resolve (env\<lparr>fails := f\<rparr>) w u body = resolve env w u body"
  by (simp add: resolve_def conversation_create_def split: option.splits)

lemma entry_log_fails [simp]:
  "entry_log (env\<lparr>fails := f\<rparr>) body = entry_log env body"
  by (simp add: entry_log_def)

lemma stream_frame_set:
  "list_all stream_frame fs \<Longrightarrow> FDone \<notin> set fs \<and> (\<forall>b. FStreamCompleted b \<notin> set fs)"
  by (induction fs) auto

lemmas eval_defs =
  invoke_agent_def project_get_def conversation_get_def conversation_create_def
  stream_and_store_def stream_events_def stream_agent_response_def build_options_def
  save_messages_def save_stmts_def create_error_stream_def update_conversation_def
  BUILTIN_TOOLS_def data_get_def Let_def
  world1_def conv1_def env1_def request1_def request2_def request3_def
  no_failure_def user_write_fails_def

lemma resolve_request1:
  "resolve (env1 msgs r f) world1 ''ann@example.com'' request1 = Some (''c1'', conv1, world1)"
  by (simp add: resolve_def project_get_def conversation_get_def world1_def request1_def conv1_def)

subsection \<open>The final pair of frames\<close>

text \<open>
  Claim C4. In every invocation that reaches the streaming phase, the frames end with a
  \<^verbatim>\<open>stream.completed\<close> frame and the terminal sentinel \<^verbatim>\<open>[DONE]\<close>; neither occurs before. The
  flag of the \<^verbatim>\<open>stream.completed\<close> frame tells whether an error occurred in the run of the
  agent generator (an exception left it, or it yielded an error event). The environment, and
  with it the calls of the persistence block that raise, is arbitrary, and the frames do not
  depend on which of these calls raise: a persistence failure neither prevents nor duplicates
  the final pair.
\<close>

theorem final_pair:
  assumes "resolve env w u body = Some (cid, c, w1)"
  shows "\<exists>fs. frames_of (fst (invoke_agent env u body w)) =
                 fs @ [FStreamCompleted
                         (error_occurred (stream_agent_response env (req_project_id body)
                            (req_message body) (conv_session_id c) (req_cluster_id body))),
                       FDone]
              \<and> FDone \<notin> set fs \<and> (\<forall>b. FStreamCompleted b \<notin> set fs)
              \<and> (\<forall>f. frames_of (fst (invoke_agent (env\<lparr>fails := f\<rparr>) u body w)) =
                       frames_of (fst (invoke_agent env u body w)))"
proof -
  let ?mid = "frames_of (snd (stream_events env body (conv_session_id c)))"
  let ?fs = "FConversationCreated cid # ?mid"
  have mid: "FDone \<notin> set ?mid \<and> (\<forall>b. FStreamCompleted b \<notin> set ?mid)"
    using stream_frame_set [OF stream_events_frames] .
  have eq: "frames_of (fst (invoke_agent env u body w)) =
              ?fs @ [FStreamCompleted
                       (error_occurred (stream_agent_response env (req_project_id body)
                          (req_message body) (conv_session_id c) (req_cluster_id body))),
                     FDone]"
    using stream_events_error [of env body "conv_session_id c"]
    by (simp add: invoke_agent_streams [OF assms] stream_and_store_frames)
  have indep: "frames_of (fst (invoke_agent (env\<lparr>fails := f\<rparr>) u body w)) =
                 frames_of (fst (invoke_agent env u body w))" for f
  proof -
    have r: "resolve (env\<lparr>fails := f\<rparr>) w u body = Some (cid, c, w1)"
      using assms by simp
    show ?thesis
      by (simp add: invoke_agent_streams [OF r] invoke_agent_streams [OF assms]
                    stream_and_store_frames)
  qed
  have "FDone \<notin> set ?fs \<and> (\<forall>b. FStreamCompleted b \<notin> set ?fs)"
    using mid by simp
  with eq indep show ?thesis by blast
qed

theorem final_pair_witness:
  "resolve (env1 [AssistantMessage [TextBlock ''hi'']] (Some ''boom'') user_write_fails)
     world1 ''ann@example.com'' request1 = Some (''c1'', conv1, world1)
   \<and> (\<exists>fs. frames_of (fst (invoke_agent
              (env1 [AssistantMessage [TextBlock ''hi'']] (Some ''boom'') user_write_fails)
              ''ann@example.com'' request1 world1)) = fs @ [FStreamCompleted True, FDone]
          \<and> FDone \<notin> set fs \<and> (\<forall>b. FStreamCompleted b \<notin> set fs))"
proof -
  let ?E = "env1 [AssistantMessage [TextBlock ''hi'']] (Some ''boom'') user_write_fails"
  have h: "resolve ?E world1 ''ann@example.com'' request1 = Some (''c1'', conv1, world1)"
    by (rule resolve_request1)
  have e: "error_occurred (stream_agent_response ?E (req_project_id request1)
             (req_message request1) (conv_session_id conv1) (req_cluster_id request1)) = True"
    by (simp add: error_occurred_def eval_defs)
  show ?thesis
    using h final_pair [OF h] unfolding e by blast
qed

subsection \<open>The first frame\<close>

text \<open>
  Claim C5. In every invocation that reaches the streaming phase, the actions start with
  log records only, followed by the \<^verbatim>\<open>conversation.created\<close> frame with the resolved
  conversation id: no frame, no call of the runtime and no call of the store come before
  it. When the request names no conversation, the id is the one of the conversation just
  created.
\<close>

theorem conversation_created_first:
  assumes "resolve env w u body = Some (cid, c, w1)"
  shows "(\<exists>pre post. fst (invoke_agent env u body w) = pre @ Emit (FConversationCreated cid) # post
                     \<and> list_all is_log pre)
         \<and> (\<not> truthy (req_conversation_id body) \<longrightarrow> cid = generate_uuid env)"
proof -
  have "fst (invoke_agent env u body w) =
          entry_log env body @ Emit (FConversationCreated cid)
          # tl (fst (stream_and_store env body cid (conv_session_id c) w1))"
    by (simp add: invoke_agent_streams [OF assms] stream_and_store_def Let_def)
  then show ?thesis
    using entry_log_logs [of env body] resolve_new_id [OF assms] by blast
qed

theorem conversation_created_first_witness:
  "resolve (env1 [AssistantMessage [TextBlock ''hi'']] None no_failure)
     world1 ''ann@example.com'' request2
     = Some (''c2'', \<lparr>conv_project_id = ''p1'', conv_title = ''hello'', conv_session_id = None,
                      conv_cluster_id = None, conv_messages = []\<rparr>,
             world1\<lparr>conversations := (conversations world1)(''c2'' \<mapsto>
                      \<lparr>conv_project_id = ''p1'', conv_title = ''hello'', conv_session_id = None,
                       conv_cluster_id = None, conv_messages = []\<rparr>)\<rparr>)
   \<and> (\<exists>pre post. fst (invoke_agent (env1 [AssistantMessage [TextBlock ''hi'']] None no_failure)
                       ''ann@example.com'' request2 world1)
                  = pre @ Emit (FConversationCreated ''c2'') # post \<and> list_all is_log pre)"
proof -
  let ?E = "env1 [AssistantMessage [TextBlock ''hi'']] None no_failure"
  let ?c = "\<lparr>conv_project_id = ''p1'', conv_title = ''hello'', conv_session_id = None,
             conv_cluster_id = None, conv_messages = []\<rparr>"
  have h: "resolve ?E world1 ''ann@example.com'' request2
             = Some (''c2'', ?c, world1\<lparr>conversations := (conversations world1)(''c2'' \<mapsto> ?c)\<rparr>)"
    by (simp add: resolve_def project_get_def conversation_create_def world1_def request2_def
                  env1_def Let_def)
  show ?thesis
    using h conversation_created_first [OF h] by blast
qed

subsection \<open>The error-only response\<close>

text \<open>
  Claim C2. When the project does not resolve, or the request supplies a conversation id
  that does not resolve, the invocation consists of log records followed by exactly two
  frames, an error frame and the terminal sentinel: there is no \<^verbatim>\<open>conversation.created\<close>
  frame, no call of the runtime, no call of the store, and the store is unchanged. An id is
  supplied when the handler's test \<^verbatim>\<open>if not conversation_id\<close> fails, that is when it is a
  non-empty string.
\<close>

theorem not_found_short_circuit:
  assumes "project_get w u (req_project_id body) = None
           \<or> (req_conversation_id body = Some cid \<and> cid \<noteq> []
              \<and> conversation_get w (req_project_id body) cid = None)"
  shows "\<exists>logs err msg. fst (invoke_agent env u body w) = logs @ [Emit (FError err msg), Emit FDone]
                      \<and> list_all is_log logs
                      \<and> snd (invoke_agent env u body w) = w"
proof (cases "project_get w u (req_project_id body)")
  case None
  have "fst (invoke_agent env u body w) =
          [Log INFO (''Invoking agent for project: '' @ req_project_id body
                     @ '', conversation: '' @ str_opt (req_conversation_id body)),
           Log ERROR (''Project not found: '' @ req_project_id body)]
          @ [Emit (FError (''Project not found: '' @ req_project_id body)
                     (Some ''Please verify the project exists'')), Emit FDone]"
       "snd (invoke_agent env u body w) = w"
    using None by (simp_all add: invoke_agent_def create_error_stream_def Let_def)
  moreover have "list_all is_log
          [Log INFO (''Invoking agent for project: '' @ req_project_id body
                     @ '', conversation: '' @ str_opt (req_conversation_id body)),
           Log ERROR (''Project not found: '' @ req_project_id body)]"
    by simp
  ultimately show ?thesis by blast
next
  case (Some p)
  with assms have c: "req_conversation_id body = Some cid" "cid \<noteq> []"
      "conversation_get w (req_project_id body) cid = None"
    by simp_all
  have "fst (invoke_agent env u body w) =
          [Log INFO (''Invoking agent for project: '' @ req_project_id body
                     @ '', conversation: '' @ str_opt (req_conversation_id body)),
           Log ERROR (''Conversation not found: '' @ cid)]
          @ [Emit (FError (''Conversation not found: '' @ cid) (Some [])), Emit FDone]"
       "snd (invoke_agent env u body w) = w"
    using Some c by (simp_all add: invoke_agent_def create_error_stream_def Let_def)
  moreover have "list_all is_log
          [Log INFO (''Invoking agent for project: '' @ req_project_id body
                     @ '', conversation: '' @ str_opt (req_conversation_id body)),
           Log ERROR (''Conversation not found: '' @ cid)]"
    by simp
  ultimately show ?thesis by blast
qed

theorem not_found_short_circuit_witness:
  "(req_conversation_id request3 = Some ''c9'' \<and> ''c9'' \<noteq> []
      \<and> conversation_get world1 (req_project_id request3) ''c9'' = None)
   \<and> project_get world1 ''bob@example.com'' (req_project_id request1) = None
   \<and> (\<exists>logs err msg.
         fst (invoke_agent (env1 [] None no_failure) ''ann@example.com'' request3 world1)
           = logs @ [Emit (FError err msg), Emit FDone]
         \<and> list_all is_log logs
         \<and> snd (invoke_agent (env1 [] None no_failure) ''ann@example.com'' request3 world1)
             = world1)
   \<and> (\<exists>logs err msg.
         fst (invoke_agent (env1 [] None no_failure) ''bob@example.com'' request1 world1)
           = logs @ [Emit (FError err msg), Emit FDone]
         \<and> list_all is_log logs
         \<and> snd (invoke_agent (env1 [] None no_failure) ''bob@example.com'' request1 world1)
             = world1)"
proof -
  have c: "req_conversation_id request3 = Some ''c9'' \<and> ''c9'' \<noteq> []
             \<and> conversation_get world1 (req_project_id request3) ''c9'' = None"
    by (simp add: conversation_get_def world1_def request3_def)
  have p: "project_get world1 ''bob@example.com'' (req_project_id request1) = None"
    by (simp add: project_get_def world1_def request1_def)
  show ?thesis
    using c p
      not_found_short_circuit [of world1 "''ann@example.com''" request3 "''c9''"
                                  "env1 [] None no_failure", OF disjI2, OF c]
      not_found_short_circuit [of world1 "''bob@example.com''" request1 "''c9''"
                                  "env1 [] None no_failure", OF disjI1, OF p]
    by blast
qed


subsection \<open>The persistence block\<close>

lemma run_stmts_calls:
  "calls_of (fst (run_stmts env ss w)) = attempted env (stmt_calls ss)"
proof (induction ss arbitrary: w)
  case Nil
  show ?case by simp
next
  case (Cons s ss)
  show ?case
  proof (cases s)
    case (Do c)
    show ?thesis
      using Cons.IH [of "apply_call c w"] by (simp add: Do split: option.splits)
  next
    case (Say l m)
    show ?thesis
      using Cons.IH [of w] by (simp add: Say)
  qed
qed

lemma run_stmts_world:
  "fst (snd (run_stmts env ss w)) = fold apply_call (applied env (stmt_calls ss)) w"
proof (induction ss arbitrary: w)
  case Nil
  show ?case by simp
next
  case (Cons s ss)
  show ?case
  proof (cases s)
    case (Do c)
    show ?thesis
      using Cons.IH [of "apply_call c w"] by (simp add: Do split: option.splits)
  next
    case (Say l m)
    show ?thesis
      using Cons.IH [of w] by (simp add: Say)
  qed
qed

lemma save_messages_calls:
  "calls_of (fst (save_messages env body cid a w)) = attempted env (stmt_calls (save_stmts body cid a))"
  using run_stmts_calls [of env "save_stmts body cid a" w]
  by (simp add: save_messages_def Let_def split: option.splits)

lemma save_messages_world:
  "snd (save_messages env body cid a w) = fold apply_call (applied env (stmt_calls (save_stmts body cid a))) w"
  using run_stmts_world [of env "save_stmts body cid a" w]
  by (simp add: save_messages_def Let_def split: option.splits)

text \<open>The calls that the block makes when none raises.\<close>

lemma stmt_calls_append [simp]: "stmt_calls (xs @ ys) = stmt_calls xs @ stmt_calls ys"
  by (induction xs rule: stmt_calls.induct) simp_all

lemma planned_calls:
  "stmt_calls (save_stmts body cid a) =
     AddMessage cid ''user'' (req_message body) False
     # (if final_text a \<noteq> [] \<or> truthy (error_message a)
        then [AddMessage cid ''assistant''
                (if final_text a \<noteq> [] then final_text a
                 else ''Error: '' @ str_opt (error_message a))
                (error_message a \<noteq> None)]
        else [])
     @ (if truthy (new_session_id a) then [UpdateSessionId cid (the (new_session_id a))] else [])
     @ (if truthy (req_cluster_id body) then [UpdateClusterId cid (the (req_cluster_id body))]
        else [])
     @ [MarkForBackup (req_project_id body)]"
  by (simp add: save_stmts_def)

lemma invoke_agent_calls:
  assumes "resolve env w u body = Some (cid, c, w1)"
  shows "calls_of (fst (invoke_agent env u body w)) =
           attempted env (stmt_calls (save_stmts body cid (accumulated env body c)))"
  by (simp add: invoke_agent_streams [OF assms] stream_and_store_def Let_def
                stream_events_calls save_messages_calls accumulated_def)

lemma invoke_agent_world:
  assumes "resolve env w u body = Some (cid, c, w1)"
  shows "snd (invoke_agent env u body w) =
           fold apply_call (applied env (stmt_calls (save_stmts body cid (accumulated env body c)))) w1"
  by (simp add: invoke_agent_streams [OF assms] stream_and_store_def Let_def
                save_messages_world accumulated_def)

lemma apply_call_conv:
  "conversations (apply_call call w) k = map_option (conv_effect k call) (conversations w k)"
  by (cases call; cases "conversations w k")
     (auto simp: update_conversation_def split: option.splits)

lemma fold_apply_conv:
  "conversations (fold apply_call cs w) k = map_option (fold (conv_effect k) cs) (conversations w k)"
proof (induction cs arbitrary: w)
  case Nil
  show ?case by (simp add: option.map_ident)
next
  case (Cons call cs)
  show ?case
    using Cons.IH [of "apply_call call w"]
    by (simp add: apply_call_conv option.map_comp comp_def)
qed

lemma apply_call_backup:
  "backup_pending (apply_call call w) = backup_pending w @ backup_marks [call]"
  by (cases call) (auto simp: update_conversation_def split: option.splits)

lemma fold_apply_backup:
  "backup_pending (fold apply_call cs w) = backup_pending w @ backup_marks cs"
proof (induction cs arbitrary: w)
  case Nil
  show ?case by simp
next
  case (Cons call cs)
  show ?case
    using Cons.IH [of "apply_call call w"] apply_call_backup [of call w]
    by (cases call) simp_all
qed

lemma attempted_subset: "set (attempted env cs) \<subseteq> set cs"
  by (induction cs) auto

lemma applied_subset: "set (applied env cs) \<subseteq> set cs"
  by (induction cs) auto

lemma applied_attempted: "set (applied env cs) \<subseteq> set (attempted env cs)"
  by (induction cs) auto

lemma filter_attempted:
  "filter P cs = [] \<Longrightarrow> filter P (attempted env cs) = []"
  using attempted_subset [of env cs] by (auto simp: filter_empty_conv)

lemma fold_user_messages:
  "list_all (\<lambda>c. \<not> user_write c) cs \<Longrightarrow>
   user_messages (fold (conv_effect k) cs c) = user_messages c"
proof (induction cs arbitrary: c)
  case Nil
  show ?case by simp
next
  case (Cons call cs)
  then have "user_messages (fold (conv_effect k) cs (conv_effect k call c))
               = user_messages (conv_effect k call c)"
    by simp
  moreover have "user_messages (conv_effect k call c) = user_messages c"
    using Cons.prems by (cases call) (simp_all add: user_messages_def)
  ultimately show ?case by simp
qed

lemma list_all_applied: "list_all P cs \<Longrightarrow> list_all P (applied env cs)"
  using applied_subset [of env cs] by (auto simp: list_all_iff)

subsection \<open>The user message\<close>

text \<open>
  Claim C6, amended. In every invocation that reaches the streaming phase, whatever the
  runtime did (answered, raised before or in the middle of its messages, produced no text),
  the handler issues exactly one write of a message of role \<^verbatim>\<open>user\<close>, with the text of the
  request as its content; and in every such invocation in which that write does not raise,
  exactly one message of role \<^verbatim>\<open>user\<close> is persisted, with that content: the conversation
  holds the user messages it had, followed by this one.
\<close>

theorem one_user_message:
  assumes "resolve env w u body = Some (cid, c, w1)"
  shows "filter user_write (calls_of (fst (invoke_agent env u body w)))
           = [AddMessage cid ''user'' (req_message body) False]
         \<and> (fails env (AddMessage cid ''user'' (req_message body) False) = None \<longrightarrow>
             (\<exists>c'. conversations (snd (invoke_agent env u body w)) cid = Some c'
                  \<and> user_messages c' = user_messages c
                       @ [\<lparr>msg_role = ''user'', msg_content = req_message body,
                           msg_is_error = False\<rparr>]))"
proof -
  let ?u = "AddMessage cid ''user'' (req_message body) False"
  obtain rest where planned: "stmt_calls (save_stmts body cid (accumulated env body c)) = ?u # rest"
    and rest: "list_all (\<lambda>c. \<not> user_write c) rest"
    by (simp add: planned_calls)
  have none: "filter user_write rest = []"
    using rest by (simp add: filter_empty_conv list_all_iff)
  have calls: "filter user_write (calls_of (fst (invoke_agent env u body w))) = [?u]"
    using filter_attempted [OF none, of env]
    by (simp add: invoke_agent_calls [OF assms] planned)
  have store: "\<exists>c'. conversations (snd (invoke_agent env u body w)) cid = Some c'
                  \<and> user_messages c' = user_messages c
                       @ [\<lparr>msg_role = ''user'', msg_content = req_message body,
                           msg_is_error = False\<rparr>]"
    if ok: "fails env ?u = None"
  proof -
    have "conversations (snd (invoke_agent env u body w)) cid =
            Some (fold (conv_effect cid) (applied env rest) (conv_effect cid ?u c))"
      using ok resolve_conversation [OF assms]
      by (simp add: invoke_agent_world [OF assms] planned fold_apply_conv apply_call_conv
               del: apply_call.simps)
    moreover have "user_messages (fold (conv_effect cid) (applied env rest) (conv_effect cid ?u c))
            = user_messages (conv_effect cid ?u c)"
      using fold_user_messages [OF list_all_applied [OF rest]] .
    moreover have "user_messages (conv_effect cid ?u c) = user_messages c
                       @ [\<lparr>msg_role = ''user'', msg_content = req_message body,
                           msg_is_error = False\<rparr>]"
      by (simp add: user_messages_def)
    ultimately show ?thesis by simp
  qed
  from calls store show ?thesis by blast
qed

theorem one_user_message_witness:
  "resolve (env1 [AssistantMessage [TextBlock ''hi'']] (Some ''boom'') no_failure)
     world1 ''ann@example.com'' request1 = Some (''c1'', conv1, world1)
   \<and> fails (env1 [AssistantMessage [TextBlock ''hi'']] (Some ''boom'') no_failure)
        (AddMessage ''c1'' ''user'' (req_message request1) False) = None
   \<and> filter user_write (calls_of (fst (invoke_agent
        (env1 [AssistantMessage [TextBlock ''hi'']] (Some ''boom'') no_failure)
        ''ann@example.com'' request1 world1)))
       = [AddMessage ''c1'' ''user'' (req_message request1) False]
   \<and> (\<exists>c'. conversations (snd (invoke_agent
               (env1 [AssistantMessage [TextBlock ''hi'']] (Some ''boom'') no_failure)
               ''ann@example.com'' request1 world1)) ''c1'' = Some c'
           \<and> user_messages c' = user_messages conv1
                @ [\<lparr>msg_role = ''user'', msg_content = req_message request1,
                    msg_is_error = False\<rparr>])"
proof -
  let ?E = "env1 [AssistantMessage [TextBlock ''hi'']] (Some ''boom'') no_failure"
  have h: "resolve ?E world1 ''ann@example.com'' request1 = Some (''c1'', conv1, world1)"
    by (rule resolve_request1)
  have f: "fails ?E (AddMessage ''c1'' ''user'' (req_message request1) False) = None"
    by (simp add: env1_def no_failure_def)
  show ?thesis
    using h f one_user_message [OF h] by blast
qed

text \<open>
  Claim C6 as stated fails: it promises the persisted user message in every invocation that
  reaches the streaming phase. Here the runtime answers with text and a result message, the
  invocation reaches the streaming phase, and the write of the user message, the first
  statement of the \<^verbatim>\<open>try\<close> block, raises: the \<^verbatim>\<open>except\<close> clause logs the failure and the
  conversation has no message of role \<^verbatim>\<open>user\<close>.
\<close>

theorem user_message_not_persisted:
  "resolve (env1 turn_T1_T2 None user_write_fails) world1 ''ann@example.com'' request1
     = Some (''c1'', conv1, world1)
   \<and> calls_of (fst (invoke_agent (env1 turn_T1_T2 None user_write_fails)
                        ''ann@example.com'' request1 world1))
       = [AddMessage ''c1'' ''user'' ''hello'' False]
   \<and> map_option user_messages
        (conversations (snd (invoke_agent (env1 turn_T1_T2 None user_write_fails)
           ''ann@example.com'' request1 world1)) ''c1'') = Some []"
proof -
  let ?E = "env1 turn_T1_T2 None user_write_fails"
  have h: "resolve ?E world1 ''ann@example.com'' request1 = Some (''c1'', conv1, world1)"
    by (rule resolve_request1)
  have c: "calls_of (fst (invoke_agent ?E ''ann@example.com'' request1 world1))
             = [AddMessage ''c1'' ''user'' ''hello'' False]"
    by (simp add: eval_defs turn_T1_T2_def)
  have m: "map_option user_messages
             (conversations (snd (invoke_agent ?E ''ann@example.com'' request1 world1)) ''c1'')
             = Some []"
    by (simp add: eval_defs turn_T1_T2_def user_messages_def)
  from h c m show ?thesis by blast
qed

subsection \<open>The backup signal\<close>

lemma attempted_snoc:
  "attempted env (ws @ [m]) =
     (if list_all (\<lambda>c. fails env c = None) ws then ws @ [m] else attempted env ws)"
  by (induction ws) simp_all

lemma applied_snoc:
  "applied env (ws @ [m]) =
     (if list_all (\<lambda>c. fails env c = None) ws
      then ws @ (if fails env m = None then [m] else [])
      else applied env ws)"
  by (induction ws) simp_all

lemma attempted_failing:
  "\<not> list_all (\<lambda>c. fails env c = None) ws \<Longrightarrow>
   \<exists>c \<in> set (attempted env ws). fails env c \<noteq> None"
  by (induction ws) (auto split: if_splits)

lemma backup_marks_writes: "list_all is_write cs \<Longrightarrow> backup_marks cs = []"
  by (induction cs rule: backup_marks.induct) simp_all

lemma backup_marks_append [simp]: "backup_marks (xs @ ys) = backup_marks xs @ backup_marks ys"
  by (induction xs rule: backup_marks.induct) simp_all

lemma planned_writes:
  "\<exists>ws. stmt_calls (save_stmts body cid a) = ws @ [MarkForBackup (req_project_id body)]
        \<and> list_all is_write ws"
proof -
  let ?ws = "AddMessage cid ''user'' (req_message body) False
     # (if final_text a \<noteq> [] \<or> truthy (error_message a)
        then [AddMessage cid ''assistant''
                (if final_text a \<noteq> [] then final_text a
                 else ''Error: '' @ str_opt (error_message a))
                (error_message a \<noteq> None)]
        else [])
     @ (if truthy (new_session_id a) then [UpdateSessionId cid (the (new_session_id a))] else [])
     @ (if truthy (req_cluster_id body) then [UpdateClusterId cid (the (req_cluster_id body))]
        else [])"
  have "stmt_calls (save_stmts body cid a) = ?ws @ [MarkForBackup (req_project_id body)]"
    by (simp add: planned_calls)
  moreover have "list_all is_write ?ws" by simp
  ultimately show ?thesis by blast
qed

text \<open>
  Claim C8, amended. In every invocation that reaches the streaming phase, whether or not
  the runtime call failed, the backup signal for the project is issued exactly when no write
  of the persistence block raised; it then is the last call, after the writes, and puts the
  project on the queue of the backup manager unless the signal itself raises. When a write
  raises, the signal is skipped and the queue stays as it was.
\<close>

theorem backup_signal:
  assumes "resolve env w u body = Some (cid, c, w1)"
  shows "(MarkForBackup (req_project_id body) \<in> set (calls_of (fst (invoke_agent env u body w))))
           = list_all (\<lambda>c. is_write c \<longrightarrow> fails env c = None)
               (calls_of (fst (invoke_agent env u body w)))
         \<and> (MarkForBackup (req_project_id body) \<in> set (calls_of (fst (invoke_agent env u body w)))
              \<longrightarrow> (\<exists>ws. calls_of (fst (invoke_agent env u body w))
                           = ws @ [MarkForBackup (req_project_id body)]
                        \<and> list_all is_write ws))
         \<and> backup_pending (snd (invoke_agent env u body w)) =
             backup_pending w
             @ (if MarkForBackup (req_project_id body)
                     \<in> set (calls_of (fst (invoke_agent env u body w)))
                   \<and> fails env (MarkForBackup (req_project_id body)) = None
                then [req_project_id body] else [])"
proof -
  let ?m = "MarkForBackup (req_project_id body)"
  let ?ok = "\<lambda>c. fails env c = None"
  obtain ws where planned: "stmt_calls (save_stmts body cid (accumulated env body c)) = ws @ [?m]"
    and ws: "list_all is_write ws"
    using planned_writes by blast
  have calls: "calls_of (fst (invoke_agent env u body w)) = attempted env (ws @ [?m])"
    by (simp add: invoke_agent_calls [OF assms] planned)
  have pending: "backup_pending (snd (invoke_agent env u body w)) =
                   backup_pending w @ backup_marks (applied env (ws @ [?m]))"
    by (simp add: invoke_agent_world [OF assms] planned fold_apply_backup
                  resolve_backup [OF assms])
  have notin: "?m \<notin> set ws"
    using ws by (auto simp: list_all_iff)
  show ?thesis
  proof (cases "list_all ?ok ws")
    case True
    have c: "calls_of (fst (invoke_agent env u body w)) = ws @ [?m]"
      using True calls by (simp add: attempted_snoc)
    have a: "applied env (ws @ [?m]) = ws @ (if fails env ?m = None then [?m] else [])"
      using True by (simp add: applied_snoc)
    have "list_all (\<lambda>c. is_write c \<longrightarrow> fails env c = None) (ws @ [?m])"
      using True by (simp add: list_all_iff)
    then show ?thesis
      using c ws pending a by (simp add: backup_marks_writes)
  next
    case False
    have c: "calls_of (fst (invoke_agent env u body w)) = attempted env ws"
      using False calls by (simp add: attempted_snoc)
    have a: "applied env (ws @ [?m]) = applied env ws"
      using False by (simp add: applied_snoc)
    have sub: "set (attempted env ws) \<subseteq> set ws"
      by (rule attempted_subset)
    have m: "?m \<notin> set (attempted env ws)"
      using notin sub by blast
    obtain x where x: "x \<in> set (attempted env ws)" "fails env x \<noteq> None"
      using attempted_failing [OF False] by blast
    then have "is_write x"
      using ws sub by (auto simp: list_all_iff)
    with x have n: "\<not> list_all (\<lambda>c. is_write c \<longrightarrow> fails env c = None) (attempted env ws)"
      by (auto simp: list_all_iff)
    have "list_all is_write (applied env ws)"
      using ws by (rule list_all_applied)
    then have b: "backup_marks (applied env ws) = []"
      by (rule backup_marks_writes)
    show ?thesis
      using c m n pending a b by simp
  qed
qed

text \<open>
  Claim C8 as stated fails: it promises the signal in every invocation that reaches the
  streaming phase. Here the write of the user message raises; the signal is in the same
  \<^verbatim>\<open>try\<close> block after it, so the write is the only call and nothing is queued.
\<close>

theorem backup_signal_skipped:
  "calls_of (fst (invoke_agent (env1 [AssistantMessage [TextBlock ''hi'']] None user_write_fails)
                     ''ann@example.com'' request1 world1))
     = [AddMessage ''c1'' ''user'' ''hello'' False]
   \<and> backup_pending (snd (invoke_agent
        (env1 [AssistantMessage [TextBlock ''hi'']] None user_write_fails)
        ''ann@example.com'' request1 world1)) = []"
  by (simp add: eval_defs)

theorem backup_signal_witness:
  "resolve (env1 [AssistantMessage [TextBlock ''hi'']] (Some ''boom'') no_failure)
     world1 ''ann@example.com'' request1 = Some (''c1'', conv1, world1)
   \<and> calls_of (fst (invoke_agent
        (env1 [AssistantMessage [TextBlock ''hi'']] (Some ''boom'') no_failure)
        ''ann@example.com'' request1 world1))
       = [AddMessage ''c1'' ''user'' ''hello'' False,
          AddMessage ''c1'' ''assistant'' ''hi'' True,
          MarkForBackup ''p1'']
   \<and> backup_pending (snd (invoke_agent
        (env1 [AssistantMessage [TextBlock ''hi'']] (Some ''boom'') no_failure)
        ''ann@example.com'' request1 world1)) = backup_pending world1 @ [req_project_id request1]"
proof -
  let ?E = "env1 [AssistantMessage [TextBlock ''hi'']] (Some ''boom'') no_failure"
  have h: "resolve ?E world1 ''ann@example.com'' request1 = Some (''c1'', conv1, world1)"
    by (rule resolve_request1)
  have c: "calls_of (fst (invoke_agent ?E ''ann@example.com'' request1 world1))
       = [AddMessage ''c1'' ''user'' ''hello'' False,
          AddMessage ''c1'' ''assistant'' ''hi'' True,
          MarkForBackup ''p1'']"
    by (simp add: eval_defs)
  have p: "req_project_id request1 = ''p1''"
    by (simp add: request1_def)
  have f: "fails ?E (MarkForBackup ''p1'') = None"
    by (simp add: env1_def no_failure_def)
  show ?thesis
    using h c backup_signal [OF h] unfolding c p using f by simp
qed


subsection \<open>The assistant message\<close>

lemma fold_messages:
  "list_all (\<lambda>c. \<not> message_write c) cs \<Longrightarrow>
   conv_messages (fold (conv_effect k) cs c) = conv_messages c"
proof (induction cs arbitrary: c)
  case Nil
  show ?case by simp
next
  case (Cons call cs)
  then have "conv_messages (fold (conv_effect k) cs (conv_effect k call c))
               = conv_messages (conv_effect k call c)"
    by simp
  moreover have "conv_messages (conv_effect k call c) = conv_messages c"
    using Cons.prems by (cases call) simp_all
  ultimately show ?case by simp
qed

lemma applied_append_ok:
  "list_all (\<lambda>c. fails env c = None) xs \<Longrightarrow> applied env (xs @ ys) = xs @ applied env ys"
  by (induction xs) simp_all

lemma planned_messages:
  "\<exists>rest. stmt_calls (save_stmts body cid a) =
            (AddMessage cid ''user'' (req_message body) False
             # (if final_text a \<noteq> [] \<or> truthy (error_message a)
                then [AddMessage cid ''assistant''
                        (if final_text a \<noteq> [] then final_text a
                         else ''Error: '' @ str_opt (error_message a))
                        (error_message a \<noteq> None)]
                else [])) @ rest
         \<and> list_all (\<lambda>c. \<not> message_write c) rest"
proof -
  let ?rest = "(if truthy (new_session_id a) then [UpdateSessionId cid (the (new_session_id a))] else [])
     @ (if truthy (req_cluster_id body) then [UpdateClusterId cid (the (req_cluster_id body))]
        else [])
     @ [MarkForBackup (req_project_id body)]"
  have "stmt_calls (save_stmts body cid a) =
            (AddMessage cid ''user'' (req_message body) False
             # (if final_text a \<noteq> [] \<or> truthy (error_message a)
                then [AddMessage cid ''assistant''
                        (if final_text a \<noteq> [] then final_text a
                         else ''Error: '' @ str_opt (error_message a))
                        (error_message a \<noteq> None)]
                else [])) @ ?rest"
    by (simp add: planned_calls)
  moreover have "list_all (\<lambda>c. \<not> message_write c) ?rest" by simp
  ultimately show ?thesis by blast
qed

text \<open>
  Claim C3, amended. In every invocation that reaches the streaming phase in which no write
  of a message raises, and in which the error recorded, if there is one, has a non-empty
  message: the conversation gains the user message and, after it, an assistant message if
  and only if the accumulated text is non-empty or an error occurred. The content of the
  assistant message is the accumulated text when there is some, and otherwise
  \<^verbatim>\<open>"Error: "\<close> followed by the error message; its error flag tells whether an error
  occurred, so it is set in the case of an error and no text.
\<close>

theorem assistant_message:
  assumes "resolve env w u body = Some (cid, c, w1)"
    and "\<forall>r txt err. fails env (AddMessage cid r txt err) = None"
    and "error_message (accumulated env body c) \<noteq> Some []"
  shows "\<exists>c'. conversations (snd (invoke_agent env u body w)) cid = Some c'
            \<and> conv_messages c' =
                conv_messages c
                @ \<lparr>msg_role = ''user'', msg_content = req_message body, msg_is_error = False\<rparr>
                # (if final_text (accumulated env body c) \<noteq> []
                   then [\<lparr>msg_role = ''assistant'',
                          msg_content = final_text (accumulated env body c),
                          msg_is_error = (error_message (accumulated env body c) \<noteq> None)\<rparr>]
                   else (case error_message (accumulated env body c) of
                           None \<Rightarrow> []
                         | Some e \<Rightarrow> [\<lparr>msg_role = ''assistant'',
                                       msg_content = ''Error: '' @ e,
                                       msg_is_error = True\<rparr>]))"
proof -
  define a where "a = accumulated env body c"
  define ms where "ms = AddMessage cid ''user'' (req_message body) False
             # (if final_text a \<noteq> [] \<or> truthy (error_message a)
                then [AddMessage cid ''assistant''
                        (if final_text a \<noteq> [] then final_text a
                         else ''Error: '' @ str_opt (error_message a))
                        (error_message a \<noteq> None)]
                else [])"
  obtain rest where planned: "stmt_calls (save_stmts body cid a) = ms @ rest"
    and rest: "list_all (\<lambda>c. \<not> message_write c) rest"
    unfolding ms_def using planned_messages by blast
  have ok: "list_all (\<lambda>c. fails env c = None) ms"
    using assms(2) by (simp add: ms_def)
  have app: "applied env (ms @ rest) = ms @ applied env rest"
    using ok by (rule applied_append_ok)
  have world: "conversations (snd (invoke_agent env u body w)) cid =
          Some (fold (conv_effect cid) (applied env rest) (fold (conv_effect cid) ms c))"
    using resolve_conversation [OF assms(1)]
    by (simp add: invoke_agent_world [OF assms(1)] planned [unfolded a_def] app fold_apply_conv)
  have keep: "conv_messages (fold (conv_effect cid) (applied env rest)
                               (fold (conv_effect cid) ms c))
                = conv_messages (fold (conv_effect cid) ms c)"
    using fold_messages [OF list_all_applied [OF rest]] .
  have msgs: "conv_messages (fold (conv_effect cid) ms c) =
                conv_messages c
                @ \<lparr>msg_role = ''user'', msg_content = req_message body, msg_is_error = False\<rparr>
                # (if final_text a \<noteq> []
                   then [\<lparr>msg_role = ''assistant'',
                          msg_content = final_text a,
                          msg_is_error = (error_message a \<noteq> None)\<rparr>]
                   else (case error_message a of
                           None \<Rightarrow> []
                         | Some e \<Rightarrow> [\<lparr>msg_role = ''assistant'',
                                       msg_content = ''Error: '' @ e,
                                       msg_is_error = True\<rparr>]))"
    using assms(3) [folded a_def] by (cases "error_message a") (simp_all add: ms_def)
  show ?thesis
    using world keep msgs unfolding a_def by simp
qed

text \<open>
  Claim C3 as stated fails: the text buffer holds \<^verbatim>\<open>hi\<close>, but the write of the user
  message raises, the rest of the \<^verbatim>\<open>try\<close> block is skipped, and the conversation has no
  assistant message (it has no message at all).
\<close>

theorem assistant_message_skipped:
  "final_text (accumulated (env1 [AssistantMessage [TextBlock ''hi'']] None user_write_fails)
                 request1 conv1) = ''hi''
   \<and> map_option conv_messages
        (conversations (snd (invoke_agent
           (env1 [AssistantMessage [TextBlock ''hi'']] None user_write_fails)
           ''ann@example.com'' request1 world1)) ''c1'') = Some []"
  by (simp add: accumulated_def eval_defs)

theorem assistant_message_witness:
  "resolve (env1 [] (Some ''boom'') no_failure) world1 ''ann@example.com'' request1
     = Some (''c1'', conv1, world1)
   \<and> (\<forall>r txt err. fails (env1 [] (Some ''boom'') no_failure) (AddMessage ''c1'' r txt err) = None)
   \<and> error_message (accumulated (env1 [] (Some ''boom'') no_failure) request1 conv1) \<noteq> Some []
   \<and> map_option conv_messages
        (conversations (snd (invoke_agent (env1 [] (Some ''boom'') no_failure)
           ''ann@example.com'' request1 world1)) ''c1'')
      = Some [\<lparr>msg_role = ''user'', msg_content = ''hello'', msg_is_error = False\<rparr>,
              \<lparr>msg_role = ''assistant'', msg_content = ''Error: boom'', msg_is_error = True\<rparr>]"
proof -
  let ?E = "env1 [] (Some ''boom'') no_failure"
  have h: "resolve ?E world1 ''ann@example.com'' request1 = Some (''c1'', conv1, world1)"
    by (rule resolve_request1)
  have f: "\<forall>r txt err. fails ?E (AddMessage ''c1'' r txt err) = None"
    by (simp add: env1_def no_failure_def)
  have a: "accumulated ?E request1 conv1
             = \<lparr>final_text = [], new_session_id = None, error_message = Some ''boom''\<rparr>"
    by (simp add: accumulated_def eval_defs)
  have e: "error_message (accumulated ?E request1 conv1) \<noteq> Some []"
    by (simp add: a)
  have "\<exists>c'. conversations (snd (invoke_agent ?E ''ann@example.com'' request1 world1)) ''c1''
               = Some c'
            \<and> conv_messages c' =
                conv_messages conv1
                @ [\<lparr>msg_role = ''user'', msg_content = req_message request1,
                    msg_is_error = False\<rparr>,
                   \<lparr>msg_role = ''assistant'', msg_content = ''Error: boom'',
                    msg_is_error = True\<rparr>]"
    using assistant_message [OF h f e] unfolding a by simp
  then have "map_option conv_messages
        (conversations (snd (invoke_agent ?E ''ann@example.com'' request1 world1)) ''c1'')
      = Some [\<lparr>msg_role = ''user'', msg_content = ''hello'', msg_is_error = False\<rparr>,
              \<lparr>msg_role = ''assistant'', msg_content = ''Error: boom'', msg_is_error = True\<rparr>]"
    by (auto simp: conv1_def request1_def)
  with h f e show ?thesis by blast
qed

text \<open>
  The case that the amended claim leaves open. The guard of the assistant message tests
  the truth value of \<^verbatim>\<open>error_message\<close>, whereas the error flags test
  \<^verbatim>\<open>error_message is not None\<close>. When the runtime raises an exception whose text is empty
  and there is no text, the \<^verbatim>\<open>stream.completed\<close> frame reports an error, and only the user
  message is saved.
\<close>

lemma empty_error_message_not_saved:
  "last (frames_of (fst (invoke_agent (env1 [] (Some []) no_failure)
                           ''ann@example.com'' request1 world1))) = FDone
   \<and> FStreamCompleted True \<in> set (frames_of (fst (invoke_agent (env1 [] (Some []) no_failure)
                           ''ann@example.com'' request1 world1)))
   \<and> map_option conv_messages
        (conversations (snd (invoke_agent (env1 [] (Some []) no_failure)
           ''ann@example.com'' request1 world1)) ''c1'')
      = Some [\<lparr>msg_role = ''user'', msg_content = ''hello'', msg_is_error = False\<rparr>]"
  by (simp add: eval_defs)


subsection \<open>Unrecognized native messages\<close>

lemma normalize_block_drop:
  "concat (map normalize_block (filter (\<lambda>b. b \<noteq> OtherBlock) bs))
     = concat (map normalize_block bs)"
  by (induction bs) auto

lemma normalize_strip_blocks: "normalize_message (strip_blocks m) = normalize_message m"
  by (cases m) (simp_all add: normalize_block_drop)

lemma normalize_drop_unrecognized:
  "concat (map normalize_message (drop_unrecognized msgs)) = concat (map normalize_message msgs)"
  by (induction msgs) (auto simp: drop_unrecognized_def normalize_strip_blocks)

lemma build_options_query [simp]:
  "build_options (env\<lparr>query := q\<rparr>) p m s c = build_options env p m s c"
  by (simp add: build_options_def Let_def split: sum.splits)

lemma run_stmts_query [simp]:
  "run_stmts (env\<lparr>query := q\<rparr>) ss w = run_stmts env ss w"
proof (induction ss arbitrary: w)
  case Nil
  show ?case by simp
next
  case (Cons s ss)
  show ?case
  proof (cases s)
    case (Do c)
    show ?thesis
      using Cons.IH [of "apply_call c w"] by (simp add: Do split: option.splits)
  next
    case (Say l m)
    show ?thesis
      using Cons.IH [of w] by (simp add: Say)
  qed
qed

lemma stream_agent_response_drop:
  "stream_agent_response
     (env\<lparr>query := \<lambda>p opts. (drop_unrecognized (fst (query env p opts)), snd (query env p opts))\<rparr>)
     p m s c
   = stream_agent_response env p m s c"
  by (simp add: stream_agent_response_def Let_def normalize_drop_unrecognized split: sum.splits)

text \<open>
  Claim C7, amended. A native message of a class the generator does not test for, and a
  content block of such a class, is dropped without a log record and without an exception,
  and gives no frame: an invocation in which the runtime sends such objects has the same
  actions (frames, log records, calls) and leaves the same store as the invocation in which
  the runtime sends its messages without them.
\<close>

theorem unrecognized_dropped:
  "invoke_agent
     (env\<lparr>query := \<lambda>p opts. (drop_unrecognized (fst (query env p opts)), snd (query env p opts))\<rparr>)
     u body w
   = invoke_agent env u body w"
  by (simp add: invoke_agent_def stream_and_store_def stream_events_def save_messages_def
                conversation_create_def stream_agent_response_drop Let_def
           split: option.splits)

text \<open>
  Claim C7 as stated fails in that no warning is logged. Here the runtime sends one object
  of an unrecognized class; the actions of the invocation are listed in full, and no log
  record of level \<^verbatim>\<open>WARNING\<close> is among them. Neither source file calls
  \<^verbatim>\<open>logger.warning\<close>.
\<close>

theorem unrecognized_no_warning:
  "fst (invoke_agent (env1 [OtherMessage] None no_failure) ''ann@example.com'' request1 world1)
     = [Log INFO ''Invoking agent for project: p1, conversation: c1'',
        Emit (FConversationCreated ''c1''),
        Log INFO ''Resuming session S0 in /projects/p1: hello...'',
        Query ''hello''
          \<lparr>cwd = ''/projects/p1'',
           allowed_tools = [''Read'', ''Write'', ''Edit'', ''Glob'', ''Grep'', ''Skill''],
           permission_mode = ''acceptEdits'', resume = Some ''S0'', mcp_servers = [],
           system_prompt = ''prompt''\<rparr>,
        Call (AddMessage ''c1'' ''user'' ''hello'' False),
        Log INFO ''Saved messages to conversation c1: text=0 chars, error=False'',
        Call (MarkForBackup ''p1''),
        Emit (FStreamCompleted False), Emit FDone]
   \<and> warnings_of (fst (invoke_agent (env1 [OtherMessage] None no_failure)
                          ''ann@example.com'' request1 world1)) = []"
  by (simp add: eval_defs str_nat.simps)

subsection \<open>The session token\<close>

lemma consume_append_acc:
  "fst (consume (xs @ ys) a) = fst (consume ys (fst (consume xs a)))"
proof (induction xs arbitrary: a)
  case Nil
  show ?case by simp
next
  case (Cons s xs)
  show ?case
  proof (cases s)
    case (Yield e)
    show ?thesis
      using Cons.IH [of "fst (handle_event e a)"] by (simp add: Yield)
  next
    case (Effect x)
    show ?thesis
      using Cons.IH [of a] by (simp add: Effect)
  qed
qed

lemma consume_effects: "list_all is_effect xs \<Longrightarrow> fst (consume xs a) = a"
proof (induction xs)
  case Nil
  show ?case by simp
next
  case (Cons s xs)
  then show ?case by (cases s) simp_all
qed

lemma build_options_effects:
  "list_all is_effect (fst (build_options env p m s c))"
  by (simp add: build_options_def Let_def split: sum.splits)

lemma events_of_Nil [simp]: "events_of [] = []"
  by (simp add: events_of_def)

lemma events_of_append: "events_of (xs @ ys) = events_of xs @ events_of ys"
  by (simp add: events_of_def)

lemma events_of_Cons: "events_of (m # ms) = events_of [m] @ events_of ms"
  by (simp add: events_of_def)

lemma token_blocks:
  "new_session_id (fst (consume (map Yield (concat (map normalize_block bs))) a))
     = new_session_id a"
proof (induction bs arbitrary: a)
  case Nil
  show ?case by simp
next
  case (Cons b bs)
  show ?case
    using Cons.IH [of a] Cons.IH [of "a\<lparr>final_text := final_text a @ t\<rparr>" for t]
    by (cases b) simp_all
qed

lemma token_one:
  "\<not> is_result m \<Longrightarrow> \<not> offers_token m \<or> truthy (new_session_id a) \<Longrightarrow>
   truthy (new_session_id (fst (consume (events_of [m]) a))) = truthy (new_session_id a)
   \<and> (truthy (new_session_id a) \<longrightarrow>
        new_session_id (fst (consume (events_of [m]) a)) = new_session_id a)"
proof (cases m)
  case (AssistantMessage bs)
  then show ?thesis
    using token_blocks [of bs a] by (simp add: events_of_def)
next
  case (SystemMessage st d)
  assume "\<not> offers_token m \<or> truthy (new_session_id a)"
  then show ?thesis
    using SystemMessage by (auto simp: events_of_def)
qed (simp_all add: events_of_def)

lemma token_kept:
  "list_all (\<lambda>m. \<not> is_result m) msgs \<Longrightarrow> truthy (new_session_id a) \<Longrightarrow>
   new_session_id (fst (consume (events_of msgs) a)) = new_session_id a"
proof (induction msgs arbitrary: a)
  case Nil
  show ?case by simp
next
  case (Cons m msgs)
  have one: "new_session_id (fst (consume (events_of [m]) a)) = new_session_id a"
    using token_one [of m a] Cons.prems by simp
  have "new_session_id (fst (consume (events_of msgs) (fst (consume (events_of [m]) a))))
          = new_session_id (fst (consume (events_of [m]) a))"
    using Cons.IH [of "fst (consume (events_of [m]) a)"] Cons.prems one by simp
  then show ?case
    using one by (simp add: events_of_Cons [of m msgs] consume_append_acc)
qed

lemma token_absent:
  "list_all (\<lambda>m. \<not> is_result m \<and> \<not> offers_token m) msgs \<Longrightarrow> \<not> truthy (new_session_id a) \<Longrightarrow>
   \<not> truthy (new_session_id (fst (consume (events_of msgs) a)))"
proof (induction msgs arbitrary: a)
  case Nil
  then show ?case by simp
next
  case (Cons m msgs)
  have one: "\<not> truthy (new_session_id (fst (consume (events_of [m]) a)))"
    using token_one [of m a] Cons.prems by simp
  have "\<not> truthy (new_session_id (fst (consume (events_of msgs) (fst (consume (events_of [m]) a)))))"
    using Cons.IH [of "fst (consume (events_of [m]) a)"] Cons.prems one by simp
  then show ?case
    by (simp add: events_of_Cons [of m msgs] consume_append_acc)
qed

lemma consume_result:
  "fst (consume (events_of (pre @ ResultMessage sid d cst e n # post)) a)
     = fst (consume (events_of post) ((fst (consume (events_of pre) a))\<lparr>new_session_id := sid\<rparr>))"
  by (simp add: events_of_append events_of_Cons [of _ post] consume_append_acc)
     (simp add: events_of_def)

lemma consume_init:
  "data_get d ''session_id'' = Some t \<Longrightarrow> \<not> truthy (new_session_id (fst (consume (events_of pre) a))) \<Longrightarrow>
   fst (consume (events_of (pre @ SystemMessage ''init'' (Some d) # post)) a)
     = fst (consume (events_of post) ((fst (consume (events_of pre) a))\<lparr>new_session_id := Some t\<rparr>))"
proof -
  assume t: "data_get d ''session_id'' = Some t"
    and n: "\<not> truthy (new_session_id (fst (consume (events_of pre) a)))"
  have "d \<noteq> []"
    using t by (auto simp: data_get_def)
  then show ?thesis
    using t n
    by (simp add: events_of_append events_of_Cons [of _ post] consume_append_acc)
       (simp add: events_of_def)
qed

lemma stream_events_token:
  assumes "snd (build_options env (req_project_id body) (req_message body) sid
                  (req_cluster_id body)) = Inr opts"
  shows "new_session_id (fst (stream_events env body sid)) =
           new_session_id (fst (consume (events_of (fst (query env (req_message body) opts)))
                                  \<lparr>final_text = [], new_session_id = None, error_message = None\<rparr>))"
proof -
  let ?init = "\<lparr>final_text = [], new_session_id = None, error_message = None\<rparr>"
  define before where "before = fst (build_options env (req_project_id body) (req_message body)
                                  sid (req_cluster_id body))
                                @ [Effect (Query (req_message body) opts)]"
  define evs where "evs = events_of (fst (query env (req_message body) opts))"
  define after where "after = (case snd (query env (req_message body) opts) of
                  None \<Rightarrow> []
                | Some e \<Rightarrow> [Effect (Log ERROR (''Error during Claude query: '' @ e)),
                             Yield (EError e)])"
  have run: "stream_agent_response env (req_project_id body) (req_message body) sid
               (req_cluster_id body) = (before @ evs @ after, None)"
    using assms
    by (simp add: stream_agent_response_def events_of_def Let_def before_def evs_def after_def)
  have pre: "fst (consume before ?init) = ?init"
    unfolding before_def
    using build_options_effects [of env "req_project_id body" "req_message body" sid
            "req_cluster_id body"]
    by (intro consume_effects) simp
  have tail: "new_session_id (fst (consume after x)) = new_session_id x" for x
    unfolding after_def by (cases "snd (query env (req_message body) opts)") simp_all
  have "fst (stream_events env body sid) = fst (consume after (fst (consume evs ?init)))"
    by (simp add: stream_events_def run Let_def consume_append_acc pre)
  then show ?thesis
    by (simp add: tail evs_def)
qed

lemma candidate_result:
  assumes "msgs = pre @ ResultMessage (Some t) d cst e n # post" and "t \<noteq> []"
    and "list_all (\<lambda>m. \<not> is_result m) post"
  shows "new_session_id (fst (consume (events_of msgs) a)) = Some t"
  using token_kept [OF assms(3), of "(fst (consume (events_of pre) a))\<lparr>new_session_id := Some t\<rparr>"]
        assms(2)
  by (simp add: assms(1) consume_result)

lemma candidate_discarded:
  assumes "msgs = pre @ ResultMessage sid d cst e n # post" and "\<not> truthy sid"
    and "list_all (\<lambda>m. \<not> is_result m \<and> \<not> offers_token m) post"
  shows "\<not> truthy (new_session_id (fst (consume (events_of msgs) a)))"
  using token_absent [OF assms(3), of "(fst (consume (events_of pre) a))\<lparr>new_session_id := sid\<rparr>"]
        assms(2)
  by (simp add: assms(1) consume_result)

lemma candidate_init:
  assumes "msgs = pre @ SystemMessage ''init'' (Some data) # post"
    and "data_get data ''session_id'' = Some t" and "t \<noteq> []"
    and "list_all (\<lambda>m. \<not> offers_token m) pre"
    and "list_all (\<lambda>m. \<not> is_result m) msgs"
    and "\<not> truthy (new_session_id a)"
  shows "new_session_id (fst (consume (events_of msgs) a)) = Some t"
proof -
  have pre: "list_all (\<lambda>m. \<not> is_result m \<and> \<not> offers_token m) pre"
    using assms(1,4,5) by (simp add: list_all_iff)
  have post: "list_all (\<lambda>m. \<not> is_result m) post"
    using assms(1,5) by simp
  have n: "\<not> truthy (new_session_id (fst (consume (events_of pre) a)))"
    using token_absent [OF pre assms(6)] .
  show ?thesis
    using token_kept [OF post, of "(fst (consume (events_of pre) a))\<lparr>new_session_id := Some t\<rparr>"]
          assms(3)
    by (simp add: assms(1) consume_init [OF assms(2) n])
qed

lemma fold_session:
  "list_all (\<lambda>c. \<not> token_write c) cs \<Longrightarrow>
   conv_session_id (fold (conv_effect k) cs c) = conv_session_id c"
proof (induction cs arbitrary: c)
  case Nil
  show ?case by simp
next
  case (Cons call cs)
  then have "conv_session_id (fold (conv_effect k) cs (conv_effect k call c))
               = conv_session_id (conv_effect k call c)"
    by simp
  moreover have "conv_session_id (conv_effect k call c) = conv_session_id c"
    using Cons.prems by (cases call) simp_all
  ultimately show ?case by simp
qed

lemma list_all_attempted: "list_all P cs \<Longrightarrow> list_all P (attempted env cs)"
  using attempted_subset [of env cs] by (auto simp: list_all_iff)

lemma token_stored:
  assumes "resolve env w u body = Some (cid, c, w1)"
    and "\<forall>r txt err. fails env (AddMessage cid r txt err) = None"
    and "fails env (UpdateSessionId cid t) = None"
    and "new_session_id (accumulated env body c) = Some t" and "t \<noteq> []"
  shows "map_option conv_session_id (conversations (snd (invoke_agent env u body w)) cid)
           = Some (Some t)"
proof -
  define a where "a = accumulated env body c"
  define ms where "ms = AddMessage cid ''user'' (req_message body) False
             # (if final_text a \<noteq> [] \<or> truthy (error_message a)
                then [AddMessage cid ''assistant''
                        (if final_text a \<noteq> [] then final_text a
                         else ''Error: '' @ str_opt (error_message a))
                        (error_message a \<noteq> None)]
                else [])"
  define rest where "rest =
       (if truthy (req_cluster_id body) then [UpdateClusterId cid (the (req_cluster_id body))]
        else [])
       @ [MarkForBackup (req_project_id body)]"
  have tok: "new_session_id a = Some t"
    using assms(4) by (simp add: a_def)
  define ws where "ws = ms @ [UpdateSessionId cid t]"
  have planned: "stmt_calls (save_stmts body cid a) = ws @ rest"
    using tok assms(5) by (simp add: planned_calls ms_def rest_def ws_def)
  have rest: "list_all (\<lambda>c. \<not> token_write c) rest"
    by (simp add: rest_def)
  have ok: "list_all (\<lambda>c. fails env c = None) ws"
    using assms(2,3) by (simp add: ms_def ws_def)
  have app: "applied env (ws @ rest) = ws @ applied env rest"
    using ok by (rule applied_append_ok)
  have world: "conversations (snd (invoke_agent env u body w)) cid =
          Some (fold (conv_effect cid) (applied env rest) (fold (conv_effect cid) ws c))"
    using resolve_conversation [OF assms(1)]
    by (simp add: invoke_agent_world [OF assms(1)] planned [unfolded a_def] app fold_apply_conv)
  have "conv_session_id (fold (conv_effect cid) (applied env rest)
                           (fold (conv_effect cid) ws c))
          = conv_session_id (fold (conv_effect cid) ws c)"
    using fold_session [OF list_all_applied [OF rest]] .
  moreover have "conv_session_id (fold (conv_effect cid) ws c) = Some t"
    by (simp add: ws_def)
  ultimately show ?thesis
    using world by simp
qed

lemma token_untouched:
  assumes "resolve env w u body = Some (cid, c, w1)"
    and "\<not> truthy (new_session_id (accumulated env body c))"
  shows "filter token_write (calls_of (fst (invoke_agent env u body w))) = []
         \<and> map_option conv_session_id (conversations (snd (invoke_agent env u body w)) cid)
             = Some (conv_session_id c)"
proof -
  define a where "a = accumulated env body c"
  have planned: "list_all (\<lambda>c. \<not> token_write c) (stmt_calls (save_stmts body cid a))"
    using assms(2) by (simp add: planned_calls a_def)
  have "list_all (\<lambda>c. \<not> token_write c) (calls_of (fst (invoke_agent env u body w)))"
    using list_all_attempted [OF planned, of env]
    by (simp add: invoke_agent_calls [OF assms(1)] a_def)
  then have calls: "filter token_write (calls_of (fst (invoke_agent env u body w))) = []"
    by (simp add: filter_empty_conv list_all_iff)
  have "conversations (snd (invoke_agent env u body w)) cid =
          Some (fold (conv_effect cid) (applied env (stmt_calls (save_stmts body cid a))) c)"
    using resolve_conversation [OF assms(1)]
    by (simp add: invoke_agent_world [OF assms(1)] fold_apply_conv a_def)
  then have "map_option conv_session_id (conversations (snd (invoke_agent env u body w)) cid)
               = Some (conv_session_id c)"
    using fold_session [OF list_all_applied [OF planned], of cid env c] by simp
  with calls show ?thesis by blast
qed

text \<open>
  Claim C1, amended. Take an invocation that reaches the streaming phase, whose native
  stream is consumed, and in which neither the message writes nor the token update raise.
  If the last result message of the stream carries a non-empty token \<^verbatim>\<open>T2\<close>, the token
  stored on the conversation is \<^verbatim>\<open>T2\<close>, whatever token a system/init message offered
  before. If the stream has no result message at all and \<^verbatim>\<open>T1\<close> is the non-empty token of
  the first system/init message that offers one, the stored token is \<^verbatim>\<open>T1\<close>.
\<close>

theorem token_resolution:
  assumes "resolve env w u body = Some (cid, c, w1)"
    and "snd (build_options env (req_project_id body) (req_message body) (conv_session_id c)
                (req_cluster_id body)) = Inr opts"
    and "fst (query env (req_message body) opts) = msgs"
    and "\<forall>r txt err. fails env (AddMessage cid r txt err) = None"
    and "\<forall>tok. fails env (UpdateSessionId cid tok) = None"
  shows "(msgs = pre @ ResultMessage (Some t2) d cst e n # post \<and> t2 \<noteq> []
            \<and> list_all (\<lambda>m. \<not> is_result m) post
          \<longrightarrow> map_option conv_session_id (conversations (snd (invoke_agent env u body w)) cid)
                = Some (Some t2))
         \<and> (msgs = pre' @ SystemMessage ''init'' (Some data) # post'
              \<and> data_get data ''session_id'' = Some t1 \<and> t1 \<noteq> []
              \<and> list_all (\<lambda>m. \<not> offers_token m) pre'
              \<and> list_all (\<lambda>m. \<not> is_result m) msgs
            \<longrightarrow> map_option conv_session_id (conversations (snd (invoke_agent env u body w)) cid)
                  = Some (Some t1))"
proof -
  let ?init = "\<lparr>final_text = [], new_session_id = None, error_message = None\<rparr>"
  have acc: "new_session_id (accumulated env body c)
               = new_session_id (fst (consume (events_of msgs) ?init))"
    using stream_events_token [OF assms(2)] assms(3) by (simp add: accumulated_def)
  have stored: "map_option conv_session_id (conversations (snd (invoke_agent env u body w)) cid)
                  = Some (Some t)"
    if "new_session_id (accumulated env body c) = Some t" and "t \<noteq> []" for t
    using token_stored [OF assms(1) assms(4) _ that] assms(5) by simp
  have r: "map_option conv_session_id (conversations (snd (invoke_agent env u body w)) cid)
             = Some (Some t2)"
    if "msgs = pre @ ResultMessage (Some t2) d cst e n # post" "t2 \<noteq> []"
       "list_all (\<lambda>m. \<not> is_result m) post"
    using stored [of t2] candidate_result [OF that, of ?init] that(2) acc by simp
  have i: "map_option conv_session_id (conversations (snd (invoke_agent env u body w)) cid)
             = Some (Some t1)"
    if "msgs = pre' @ SystemMessage ''init'' (Some data) # post'"
       "data_get data ''session_id'' = Some t1" "t1 \<noteq> []"
       "list_all (\<lambda>m. \<not> offers_token m) pre'" "list_all (\<lambda>m. \<not> is_result m) msgs"
    using stored [of t1] candidate_init [OF that, of ?init] that(3) acc by simp
  from r i show ?thesis by blast
qed

text \<open>
  Claim C10. In an invocation that reaches the streaming phase and whose native stream is
  consumed, let a result message carry no session token (\<^verbatim>\<open>None\<close>, or the empty string,
  which the code treats alike), with no further result message and no system/init message
  with a token after it. Then, whatever was captured from a system/init message before and
  whichever calls of the persistence block raise, no update of the session token is issued
  and the conversation keeps the token it had.
\<close>

theorem candidate_discarded_by_result:
  assumes "resolve env w u body = Some (cid, c, w1)"
    and "snd (build_options env (req_project_id body) (req_message body) (conv_session_id c)
                (req_cluster_id body)) = Inr opts"
    and "fst (query env (req_message body) opts) = pre @ ResultMessage sid d cst e n # post"
    and "\<not> truthy sid"
    and "list_all (\<lambda>m. \<not> is_result m \<and> \<not> offers_token m) post"
  shows "filter token_write (calls_of (fst (invoke_agent env u body w))) = []
         \<and> map_option conv_session_id (conversations (snd (invoke_agent env u body w)) cid)
             = Some (conv_session_id c)"
proof -
  let ?init = "\<lparr>final_text = [], new_session_id = None, error_message = None\<rparr>"
  have "new_session_id (accumulated env body c)
               = new_session_id (fst (consume (events_of
                   (pre @ ResultMessage sid d cst e n # post)) ?init))"
    using stream_events_token [OF assms(2)] assms(3) by (simp add: accumulated_def)
  then have "\<not> truthy (new_session_id (accumulated env body c))"
    using candidate_discarded [OF refl assms(4) assms(5), of pre d cst e n ?init] by simp
  then show ?thesis
    by (rule token_untouched [OF assms(1)])
qed

lemma build_options_request1:
  "snd (build_options (env1 msgs r f) (req_project_id request1) (req_message request1)
          (conv_session_id conv1) (req_cluster_id request1)) = Inr options1"
  by (simp add: build_options_def env1_def request1_def conv1_def options1_def BUILTIN_TOOLS_def)

theorem token_resolution_witness:
  "resolve (env1 turn_T1_T2 None no_failure) world1 ''ann@example.com'' request1
     = Some (''c1'', conv1, world1)
   \<and> resolve (env1 turn_T1 None no_failure) world1 ''ann@example.com'' request1
     = Some (''c1'', conv1, world1)
   \<and> map_option conv_session_id
        (conversations (snd (invoke_agent (env1 turn_T1_T2 None no_failure)
           ''ann@example.com'' request1 world1)) ''c1'') = Some (Some ''T2'')
   \<and> map_option conv_session_id
        (conversations (snd (invoke_agent (env1 turn_T1 None no_failure)
           ''ann@example.com'' request1 world1)) ''c1'') = Some (Some ''T1'')"
proof -
  let ?E2 = "env1 turn_T1_T2 None no_failure"
  let ?E1 = "env1 turn_T1 None no_failure"
  have h2: "resolve ?E2 world1 ''ann@example.com'' request1 = Some (''c1'', conv1, world1)"
    and h1: "resolve ?E1 world1 ''ann@example.com'' request1 = Some (''c1'', conv1, world1)"
    by (rule resolve_request1)+
  have o2: "snd (build_options ?E2 (req_project_id request1) (req_message request1)
                  (conv_session_id conv1) (req_cluster_id request1)) = Inr options1"
    and o1: "snd (build_options ?E1 (req_project_id request1) (req_message request1)
                  (conv_session_id conv1) (req_cluster_id request1)) = Inr options1"
    by (rule build_options_request1)+
  have q2: "fst (query ?E2 (req_message request1) options1) = turn_T1_T2"
    and q1: "fst (query ?E1 (req_message request1) options1) = turn_T1"
    by (simp_all add: env1_def)
  have a2: "\<forall>r txt err. fails ?E2 (AddMessage ''c1'' r txt err) = None"
    and a1: "\<forall>r txt err. fails ?E1 (AddMessage ''c1'' r txt err) = None"
    and u2: "\<forall>tok. fails ?E2 (UpdateSessionId ''c1'' tok) = None"
    and u1: "\<forall>tok. fails ?E1 (UpdateSessionId ''c1'' tok) = None"
    by (simp_all add: env1_def no_failure_def)
  have s2: "turn_T1_T2 = [SystemMessage ''init'' (Some [(''session_id'', Some ''T1'')]),
                           AssistantMessage [TextBlock ''hi'']]
                         @ ResultMessage (Some ''T2'') 5 ''0.1'' False 1 # []
            \<and> ''T2'' \<noteq> [] \<and> list_all (\<lambda>m. \<not> is_result m) []"
    by (simp add: turn_T1_T2_def)
  have s1: "turn_T1 = [] @ SystemMessage ''init'' (Some [(''session_id'', Some ''T1'')])
                           # [AssistantMessage [TextBlock ''hi'']]
            \<and> data_get [(''session_id'', Some ''T1'')] ''session_id'' = Some ''T1''
            \<and> ''T1'' \<noteq> []
            \<and> list_all (\<lambda>m. \<not> offers_token m) []
            \<and> list_all (\<lambda>m. \<not> is_result m) turn_T1"
    by (simp add: turn_T1_def data_get_def)
  have r2: "map_option conv_session_id
        (conversations (snd (invoke_agent ?E2 ''ann@example.com'' request1 world1)) ''c1'')
          = Some (Some ''T2'')"
    using token_resolution [OF h2 o2 q2 a2 u2] s2 by blast
  have r1: "map_option conv_session_id
        (conversations (snd (invoke_agent ?E1 ''ann@example.com'' request1 world1)) ''c1'')
          = Some (Some ''T1'')"
    using token_resolution [OF h1 o1 q1 a1 u1] s1 by blast
  from h2 h1 r2 r1 show ?thesis by blast
qed

text \<open>
  Claim C1 as stated fails in its second case: token \<^verbatim>\<open>T1\<close> is captured from the
  system/init message and no token is observed on the result message, whose
  \<^verbatim>\<open>session_id\<close> is \<^verbatim>\<open>None\<close>. The assignment in the \<^verbatim>\<open>result\<close> branch overwrites the
  captured token, no update is issued, and the conversation keeps its earlier token
  \<^verbatim>\<open>S0\<close>, not \<^verbatim>\<open>T1\<close>.
\<close>

theorem token_lost_to_null_result:
  "frames_of (fst (invoke_agent (env1 turn_T1_null None no_failure)
                     ''ann@example.com'' request1 world1))
     = [FConversationCreated ''c1'',
        FSystem ''init'' (Some [(''session_id'', Some ''T1'')]),
        FText ''hi'',
        FResult None 5 ''0.1'' False 1,
        FStreamCompleted False, FDone]
   \<and> map_option conv_session_id
        (conversations (snd (invoke_agent (env1 turn_T1_null None no_failure)
           ''ann@example.com'' request1 world1)) ''c1'') = Some (Some ''S0'')"
  by (simp add: eval_defs turn_T1_null_def)

theorem candidate_discarded_by_result_witness:
  "resolve (env1 turn_T1_null None no_failure) world1 ''ann@example.com'' request1
     = Some (''c1'', conv1, world1)
   \<and> \<not> truthy None
   \<and> filter token_write (calls_of (fst (invoke_agent (env1 turn_T1_null None no_failure)
                                          ''ann@example.com'' request1 world1))) = []
   \<and> map_option conv_session_id
        (conversations (snd (invoke_agent (env1 turn_T1_null None no_failure)
           ''ann@example.com'' request1 world1)) ''c1'') = Some (conv_session_id conv1)"
proof -
  let ?E = "env1 turn_T1_null None no_failure"
  have h: "resolve ?E world1 ''ann@example.com'' request1 = Some (''c1'', conv1, world1)"
    by (rule resolve_request1)
  have o: "snd (build_options ?E (req_project_id request1) (req_message request1)
                  (conv_session_id conv1) (req_cluster_id request1)) = Inr options1"
    by (rule build_options_request1)
  have q: "fst (query ?E (req_message request1) options1)
             = [SystemMessage ''init'' (Some [(''session_id'', Some ''T1'')]),
                AssistantMessage [TextBlock ''hi'']]
               @ ResultMessage None 5 ''0.1'' False 1 # []"
    by (simp add: env1_def turn_T1_null_def)
  have n: "\<not> truthy None" by simp
  have p: "list_all (\<lambda>m. \<not> is_result m \<and> \<not> offers_token m) []" by simp
  show ?thesis
    using h n candidate_discarded_by_result [OF h o q n p] by blast
qed

subsection \<open>The stored token is not cleared\<close>

lemma invoke_agent_unresolved:
  "resolve env w u body = None \<Longrightarrow>
   snd (invoke_agent env u body w) = w \<and> calls_of (fst (invoke_agent env u body w)) = []"
  by (auto simp: resolve_def invoke_agent_def create_error_stream_def Let_def
           split: option.splits if_splits)

lemma resolve_other:
  "resolve env w u body = Some (cid, c, w1) \<Longrightarrow> conversations w (generate_uuid env) = None \<Longrightarrow>
   conversations w k = Some ck \<Longrightarrow> conversations w1 k = Some ck"
  by (auto simp: resolve_def conversation_create_def Let_def split: option.splits if_splits)

lemma planned_keeps: "list_all keeps_token (stmt_calls (save_stmts body cid a))"
  by (cases "new_session_id a") (simp_all add: planned_calls)

lemma conv_effect_keeps:
  "keeps_token call \<Longrightarrow> conv_session_id c = Some t \<Longrightarrow>
   \<exists>t1. conv_session_id (conv_effect k call c) = Some t1
        \<and> (t1 = t \<or> (t1 \<noteq> [] \<and> call = UpdateSessionId k t1))"
  by (cases call) simp_all

lemma fold_keeps:
  "list_all keeps_token cs \<Longrightarrow> conv_session_id c = Some t \<Longrightarrow>
   \<exists>t'. conv_session_id (fold (conv_effect k) cs c) = Some t'
         \<and> (t' = t \<or> (t' \<noteq> [] \<and> UpdateSessionId k t' \<in> set cs))"
proof (induction cs arbitrary: c t)
  case Nil
  then show ?case by simp
next
  case (Cons call cs)
  have tl: "list_all keeps_token cs" and hd: "keeps_token call"
    using Cons.prems(1) by simp_all
  obtain t1 where t1: "conv_session_id (conv_effect k call c) = Some t1"
      "t1 = t \<or> (t1 \<noteq> [] \<and> call = UpdateSessionId k t1)"
    using conv_effect_keeps [OF hd Cons.prems(2)] by blast
  obtain t' where t': "conv_session_id (fold (conv_effect k) cs (conv_effect k call c)) = Some t'"
      "t' = t1 \<or> (t' \<noteq> [] \<and> UpdateSessionId k t' \<in> set cs)"
    using Cons.IH [OF tl t1(1)] by blast
  show ?case
    using t1(2) t' by auto
qed

text \<open>
  Claim C9. Let a conversation have a session token before an invocation, and let the id
  that the store gives to a new conversation not be in use. Then every update of a session
  token that the invocation issues carries a non-empty token, and after the invocation the
  conversation still has a token: the one it had, or a non-empty one that an update issued
  in this invocation put there.
\<close>

theorem token_never_cleared:
  assumes "conversations w k = Some ck" and "conv_session_id ck = Some t"
    and "conversations w (generate_uuid env) = None"
  shows "list_all keeps_token (calls_of (fst (invoke_agent env u body w)))
         \<and> (\<exists>ck' t'. conversations (snd (invoke_agent env u body w)) k = Some ck'
                    \<and> conv_session_id ck' = Some t'
                    \<and> (t' = t \<or> (t' \<noteq> []
                          \<and> UpdateSessionId k t' \<in> set (calls_of (fst (invoke_agent env u body w))))))"
proof (cases "resolve env w u body")
  case None
  then show ?thesis
    using invoke_agent_unresolved [OF None] assms(1,2) by simp
next
  case (Some r)
  then obtain cid c w1 where r: "resolve env w u body = Some (cid, c, w1)"
    by (cases r) auto
  define planned where "planned = stmt_calls (save_stmts body cid (accumulated env body c))"
  have keeps: "list_all keeps_token planned"
    unfolding planned_def by (rule planned_keeps)
  have calls: "calls_of (fst (invoke_agent env u body w)) = attempted env planned"
    unfolding planned_def by (rule invoke_agent_calls [OF r])
  have k1: "conversations w1 k = Some ck"
    using resolve_other [OF r assms(3) assms(1)] .
  have world: "conversations (snd (invoke_agent env u body w)) k
                 = Some (fold (conv_effect k) (applied env planned) ck)"
    using k1 by (simp add: invoke_agent_world [OF r] fold_apply_conv planned_def)
  obtain t' where t': "conv_session_id (fold (conv_effect k) (applied env planned) ck) = Some t'"
      "t' = t \<or> (t' \<noteq> [] \<and> UpdateSessionId k t' \<in> set (applied env planned))"
    using fold_keeps [OF list_all_applied [OF keeps] assms(2)] by blast
  have "t' = t \<or> (t' \<noteq> [] \<and> UpdateSessionId k t' \<in> set (attempted env planned))"
    using t'(2) applied_attempted [of env planned] by blast
  then show ?thesis
    using list_all_attempted [OF keeps, of env] calls world t'(1) by simp
qed

theorem token_never_cleared_witness:
  "conversations world1 ''c1'' = Some conv1 \<and> conv_session_id conv1 = Some ''S0''
   \<and> conversations world1 (generate_uuid (env1 turn_T1_T2 None no_failure)) = None
   \<and> list_all keeps_token (calls_of (fst (invoke_agent (env1 turn_T1_T2 None no_failure)
                                        ''ann@example.com'' request1 world1)))
   \<and> (\<exists>ck' t'. conversations (snd (invoke_agent (env1 turn_T1_T2 None no_failure)
                                     ''ann@example.com'' request1 world1)) ''c1'' = Some ck'
             \<and> conv_session_id ck' = Some t'
             \<and> (t' = ''S0'' \<or> (t' \<noteq> []
                   \<and> UpdateSessionId ''c1'' t'
                       \<in> set (calls_of (fst (invoke_agent (env1 turn_T1_T2 None no_failure)
                                               ''ann@example.com'' request1 world1))))))"
proof -
  have a: "conversations world1 ''c1'' = Some conv1"
    by (simp add: world1_def)
  have b: "conv_session_id conv1 = Some ''S0''"
    by (simp add: conv1_def)
  have c: "conversations world1 (generate_uuid (env1 turn_T1_T2 None no_failure)) = None"
    by (simp add: world1_def env1_def)
  show ?thesis
    using a b c token_never_cleared [OF a b c, of "''ann@example.com''" request1] by blast
qed

end
